theory Spec2Isabelle
  imports Complex_Main
begin

section \<open>RouteWeather: route sampling, arrival estimation, forecast alignment and decoding\<close>

text \<open>
  A shallow embedding of \<^verbatim>\<open>routing.py\<close>, \<^verbatim>\<open>weather.py\<close> and the request handler of
  \<^verbatim>\<open>app.py\<close>.

  Conventions of the embedding.
  \<^item> A finite Python float is a \<open>real\<close>. In the sampler and its great-circle distance
    every float operation goes through a record \<open>floatlib\<close> of the rounding and of the
    library functions, so that the rounded results are those the program works with.
    Elsewhere the rounding error of float arithmetic is not modelled. The special floats
    that change control flow (\<open>nan\<close>, \<open>inf\<close>) are kept where they can enter: in the values
    of the forecast payload and in the speed of the form.
  \<^item> A \<open>datetime\<close> is its count of microseconds since 0001-01-01T00:00 in local time,
    with the UTC offset of an aware value; Python's representable range is kept.
  \<^item> Every \<open>raise\<close> is a value \<open>Inl e\<close> of a sum type; a loop that may run forever returns
    \<open>None\<close>.
  \<^item> Functions of the Python library that parse text (\<open>datetime.fromisoformat\<close>,
    \<open>int(str)\<close>, \<open>float(str)\<close>) are fields of a record \<open>pylib\<close> passed to the functions
    that call them; \<open>None\<close> is their \<open>ValueError\<close>.
  \<^item> A string that the code formats from a value (a label, a reason, a rendered time) is
    kept as the value it is formatted from.
  \<^item> A local variable whose name is also a key of a record carries a prime.
\<close>

subsection \<open>Python values\<close>

datatype exn =
    IndexError | KeyError | ZeroDivisionError | TypeError | ValueError | OverflowError
  | RequestException | JSONDecodeError | RuntimeError

datatype pyfloat = Fin real | NaN | PosInf | NegInf

datatype pyval = PyNone | PyInt int | PyFloat pyfloat | PyStr string | PyObj

record datetime =
  local_us :: int
  utcoffset :: "int option"

record pylib =
  fromisoformat :: "string \<Rightarrow> datetime option"
  int_of_str :: "string \<Rightarrow> int option"
  float_of_str :: "string \<Rightarrow> pyfloat option"

text \<open>\<open>round\<close> of Python 3 rounds halves to the even neighbour.\<close>

definition round_half_even :: "real \<Rightarrow> int" where
  "round_half_even x =
     (let f = \<lfloor>x\<rfloor>; d = x - of_int f
      in if d < 1/2 then f else if 1/2 < d then f + 1 else if even f then f else f + 1)"

text \<open>\<open>round(x, ndigits)\<close> on a float returns a float.\<close>

definition py_round :: "real \<Rightarrow> nat \<Rightarrow> real" where
  "py_round x ndigits = of_int (round_half_even (x * 10 ^ ndigits)) / 10 ^ ndigits"

subsection \<open>Waypoints and weather records\<close>

text \<open>
  The reason of an unavailable record is a string built by the code; it is kept as the
  value it is built from:
  \<^item> \<open>HttpStatus c\<close>: \<^verbatim>\<open>f"Open-Meteo returned HTTP {c}"\<close>
  \<^item> \<open>NoHourly\<close>: \<^verbatim>\<open>"No hourly data in Open-Meteo response."\<close>
  \<^item> \<open>EmptySeries\<close>: \<^verbatim>\<open>"Empty time series from Open-Meteo."\<close>
  \<^item> \<open>OutsideWindow t\<close>: \<^verbatim>\<open>f"Arrival time {t.isoformat()} is outside the 15-day forecast window."\<close>
  \<^item> \<open>StrOfExn e\<close>: \<^verbatim>\<open>str(e)\<close> of a caught exception.
\<close>

datatype reason = HttpStatus int | NoHourly | EmptySeries | OutsideWindow datetime | StrOfExn exn

record weather =
  available :: bool
  reason :: "reason option"
  temp_f :: "pyfloat option"
  precip_in_hr :: pyfloat
  rain_in_hr :: pyfloat
  showers_in_hr :: pyfloat
  snowfall_in_hr :: pyfloat
  cloud_pct :: pyfloat
  wind_mph :: pyfloat
  wind_dir :: string
  vis_mi :: pyfloat
  wind_warning :: bool
  precip_type_code :: "int option"
  weather_code :: "int option"
  condition :: "string option"
  precip_type :: "string option"

text \<open>
  The label of a waypoint:
  \<^item> \<open>Checkpoint i m\<close>: \<^verbatim>\<open>f"Checkpoint {i} (Mile {m:.0f})"\<close> with \<open>m = round(next_target, 0)\<close>
  \<^item> \<open>Destination m\<close>: \<^verbatim>\<open>f"Destination (Mile {m:.0f})"\<close> with \<open>m = round(total_dist_mi, 0)\<close>
\<close>

datatype label = Checkpoint nat int | Destination int

text \<open>
  A waypoint is a dict that the stages fill in; a key not yet set is \<open>None\<close>. The key
  \<open>arrival_str\<close> holds \<^verbatim>\<open>arrival.strftime("%a %b %-d, %I:%M %p")\<close>, kept as \<open>arrival\<close>.
\<close>

record waypoint =
  lon :: real
  lat :: real
  mile :: real
  label :: label
  arrival_dt :: "datetime option"
  arrival_str :: "datetime option"
  weather :: "weather option"

subsection \<open>Float arithmetic of routing.py\<close>

text \<open>
  The sampler adds, compares and divides floats, and its great-circle distance goes
  through \<open>math.radians\<close>, \<open>math.sin\<close>, \<open>math.cos\<close>, \<open>math.sqrt\<close>, \<open>math.asin\<close> and a
  square. Their results are rounded, and the claims about the sampler count waypoints
  against these rounded results. The float operations are therefore fields of a record:
  \<open>rnd\<close> rounds the exact result of \<open>+\<close>, \<open>-\<close>, \<open>*\<close> and \<open>/\<close> (and reads a decimal
  literal), the other fields are the library functions on floats. \<open>math.sqrt\<close> of a
  negative float and \<open>math.asin\<close> of a float outside \<open>[-1, 1]\<close> raise \<open>ValueError\<close>; the
  model makes these checks where the source calls the two functions. The floats of the
  sampler are finite: an operation that overflows, and a coordinate that is \<open>nan\<close> or
  infinite, are not modelled.
\<close>

record floatlib =
  rnd :: "real \<Rightarrow> real"
  fradians :: "real \<Rightarrow> real"
  fsin :: "real \<Rightarrow> real"
  fcos :: "real \<Rightarrow> real"
  fsquare :: "real \<Rightarrow> real"
  fsqrt :: "real \<Rightarrow> real"
  fasin :: "real \<Rightarrow> real"

text \<open>
  What the properties below use of float arithmetic: rounding is monotone, leaves a
  float as it is and keeps zero; the library functions give zero at zero; the square
  root of a float that is not negative, and the arc sine of a float between 0 and 1,
  are not negative. Rounding to the nearest double has these properties.
\<close>

definition float_ok :: "floatlib \<Rightarrow> bool" where
  "float_ok fl \<longleftrightarrow>
     (\<forall>x y. x \<le> y \<longrightarrow> rnd fl x \<le> rnd fl y) \<and>
     (\<forall>x. rnd fl (rnd fl x) = rnd fl x) \<and>
     rnd fl 0 = 0 \<and> fradians fl 0 = 0 \<and> fsin fl 0 = 0 \<and> fsquare fl 0 = 0 \<and>
     fsqrt fl 0 = 0 \<and> fasin fl 0 = 0 \<and>
     (\<forall>x. 0 \<le> x \<longrightarrow> 0 \<le> fsqrt fl x) \<and>
     (\<forall>x. 0 \<le> x \<and> x \<le> 1 \<longrightarrow> 0 \<le> fasin fl x)"

text \<open>Arithmetic without rounding error: every operation returns its exact result.\<close>

definition exact_fl :: floatlib where
  "exact_fl =
     \<lparr> rnd = (\<lambda>x. x), fradians = (\<lambda>x. x * pi / 180), fsin = sin, fcos = cos,
       fsquare = (\<lambda>x. x\<^sup>2), fsqrt = sqrt, fasin = arcsin \<rparr>"

subsection \<open>routing.py: geometry helpers\<close>

text \<open>
  The argument of the square root in \<open>haversine_mi\<close>:
  \<^verbatim>\<open>math.sin(dphi / 2) ** 2 + math.cos(phi1) * math.cos(phi2) * math.sin(dlam / 2) ** 2\<close>.
\<close>

definition haversine_a :: "floatlib \<Rightarrow> real \<Rightarrow> real \<Rightarrow> real \<Rightarrow> real \<Rightarrow> real" where
  "haversine_a fl lon1 lat1 lon2 lat2 =
     (let phi1 = fradians fl lat1; phi2 = fradians fl lat2;
          dphi = fradians fl (rnd fl (lat2 - lat1));
          dlam = fradians fl (rnd fl (lon2 - lon1))
      in rnd fl (fsquare fl (fsin fl (rnd fl (dphi / 2))) +
                 rnd fl (rnd fl (fcos fl phi1 * fcos fl phi2) *
                         fsquare fl (fsin fl (rnd fl (dlam / 2))))))"

definition haversine_mi :: "floatlib \<Rightarrow> real \<Rightarrow> real \<Rightarrow> real \<Rightarrow> real \<Rightarrow> exn + real" where
  "haversine_mi fl lon1 lat1 lon2 lat2 =
     (let R = rnd fl 3958.8; a = haversine_a fl lon1 lat1 lon2 lat2
      in if a < 0 then Inl ValueError
         else let s = fsqrt fl a
              in if s < - 1 \<or> 1 < s then Inl ValueError
                 else Inr (rnd fl (rnd fl (2 * R) * fasin fl s)))"

definition interpolate_point ::
  "floatlib \<Rightarrow> real \<Rightarrow> real \<Rightarrow> real \<Rightarrow> real \<Rightarrow> real \<Rightarrow> real \<times> real" where
  "interpolate_point fl lon1 lat1 lon2 lat2 frac' =
     (rnd fl (lon1 + rnd fl (rnd fl (lon2 - lon1) * frac')),
      rnd fl (lat1 + rnd fl (rnd fl (lat2 - lat1) * frac')))"

subsection \<open>routing.py: waypoint sampling\<close>

text \<open>
  The dict appended inside the \<open>while\<close> loop. \<open>round(x, 1)\<close> is the float next to the
  decimal rounding of \<open>x\<close>.
\<close>

definition checkpoint ::
  "floatlib \<Rightarrow> real \<times> real \<Rightarrow> real \<times> real \<Rightarrow> real \<Rightarrow> real \<Rightarrow> nat \<Rightarrow> waypoint" where
  "checkpoint fl prev cur frac' next_target wp_index =
     (let p = interpolate_point fl (fst prev) (snd prev) (fst cur) (snd cur) frac'
      in \<lparr> lon = fst p, lat = snd p,
           mile = rnd fl (py_round next_target 1),
           label = Checkpoint wp_index (round_half_even next_target),
           arrival_dt = None, arrival_str = None, weather = None \<rparr>)"

text \<open>The dict appended after the loop.\<close>

definition destination :: "floatlib \<Rightarrow> real \<times> real \<Rightarrow> real \<Rightarrow> waypoint" where
  "destination fl end_pt total_dist_mi =
     \<lparr> lon = fst end_pt, lat = snd end_pt,
       mile = rnd fl (py_round total_dist_mi 1),
       label = Destination (round_half_even total_dist_mi),
       arrival_dt = None, arrival_str = None, weather = None \<rparr>"

text \<open>
  The inner loop \<^verbatim>\<open>while next_target <= accumulated + seg_dist\<close>. It returns the waypoints,
  the next target and the checkpoint counter; \<open>None\<close> when the loop never ends.
\<close>

partial_function (option) sample_while ::
  "floatlib \<Rightarrow> real \<Rightarrow> real \<times> real \<Rightarrow> real \<times> real \<Rightarrow> real \<Rightarrow> real \<Rightarrow>
   waypoint list \<Rightarrow> real \<Rightarrow> nat \<Rightarrow> (exn + waypoint list \<times> real \<times> nat) option"
where
  "sample_while fl interval_mi prev cur accumulated seg_dist waypoints next_target wp_index =
     (if next_target \<le> rnd fl (accumulated + seg_dist) then
        (if seg_dist = 0 then Some (Inl ZeroDivisionError)
         else sample_while fl interval_mi prev cur accumulated seg_dist
                (waypoints @
                   [checkpoint fl prev cur
                      (rnd fl (rnd fl (next_target - accumulated) / seg_dist))
                      next_target wp_index])
                (rnd fl (next_target + interval_mi)) (wp_index + 1))
      else Some (Inr (waypoints, next_target, wp_index)))"

text \<open>The loop \<^verbatim>\<open>for i in range(1, len(coords))\<close>, over the points after the first.\<close>

fun sample_for ::
  "floatlib \<Rightarrow> real \<Rightarrow> real \<times> real \<Rightarrow> (real \<times> real) list \<Rightarrow> real \<Rightarrow>
   waypoint list \<Rightarrow> real \<Rightarrow> nat \<Rightarrow> (exn + waypoint list \<times> real \<times> nat) option"
where
  "sample_for fl interval_mi prev [] accumulated waypoints next_target wp_index =
     Some (Inr (waypoints, next_target, wp_index))"
| "sample_for fl interval_mi prev (cur # rest) accumulated waypoints next_target wp_index =
     (case haversine_mi fl (fst prev) (snd prev) (fst cur) (snd cur) of
        Inl e \<Rightarrow> Some (Inl e)
      | Inr seg_dist \<Rightarrow>
          (case sample_while fl interval_mi prev cur accumulated seg_dist
                  waypoints next_target wp_index of
             None \<Rightarrow> None
           | Some (Inl e) \<Rightarrow> Some (Inl e)
           | Some (Inr (waypoints', next_target', wp_index')) \<Rightarrow>
               sample_for fl interval_mi cur rest (rnd fl (accumulated + seg_dist))
                 waypoints' next_target' wp_index'))"

definition sample_waypoints ::
  "floatlib \<Rightarrow> (real \<times> real) list \<Rightarrow> real \<Rightarrow> real \<Rightarrow> (exn + waypoint list) option" where
  "sample_waypoints fl coords interval_mi total_dist_mi =
     (case coords of
        [] \<Rightarrow> Some (Inl IndexError)
      | c0 # rest \<Rightarrow>
          (case sample_for fl interval_mi c0 rest 0 [] interval_mi 1 of
             None \<Rightarrow> None
           | Some (Inl e) \<Rightarrow> Some (Inl e)
           | Some (Inr (waypoints, _, _)) \<Rightarrow>
               Some (Inr (waypoints @ [destination fl (last coords) total_dist_mi]))))"

text \<open>
  The results of \<open>haversine_mi\<close> on the segments of a geometry, and the length the sampler
  accumulates over them: the value of \<open>accumulated\<close> after the \<open>for\<close> loop, an exception
  when a segment raises. Neither depends on the argument \<open>total_dist_mi\<close>, which the
  caller takes from the routing service.
\<close>

fun segment_lengths :: "floatlib \<Rightarrow> (real \<times> real) list \<Rightarrow> (exn + real) list" where
  "segment_lengths fl (p # q # rest) =
     haversine_mi fl (fst p) (snd p) (fst q) (snd q) # segment_lengths fl (q # rest)"
| "segment_lengths fl _ = []"

fun accumulate :: "floatlib \<Rightarrow> real \<Rightarrow> (exn + real) list \<Rightarrow> exn + real" where
  "accumulate fl accumulated [] = Inr accumulated"
| "accumulate fl accumulated (Inl e # segs) = Inl e"
| "accumulate fl accumulated (Inr seg_dist # segs) =
     accumulate fl (rnd fl (accumulated + seg_dist)) segs"

definition route_length :: "floatlib \<Rightarrow> (real \<times> real) list \<Rightarrow> exn + real" where
  "route_length fl coords = accumulate fl 0 (segment_lengths fl coords)"

text \<open>
  The targets up to a distance \<open>A\<close> are exact when adding the interval to a multiple of
  the interval that is at most \<open>A\<close> needs no rounding. Floats add whole numbers below
  \<open>2^53\<close> without rounding, so the whole-number intervals that the request handler passes
  have exact targets on every route shorter than that.
\<close>

definition exact_targets :: "floatlib \<Rightarrow> real \<Rightarrow> real \<Rightarrow> bool" where
  "exact_targets fl interval_mi A \<longleftrightarrow>
     (\<forall>k::nat. real k * interval_mi \<le> A \<longrightarrow>
        rnd fl (real k * interval_mi + interval_mi) = real k * interval_mi + interval_mi)"

text \<open>
  The loop invariant of the sampler: the counter is one more than the number of waypoints,
  the next target is the counter times the interval, the last target met is within
  \<open>bound\<close>, and the \<open>j\<close>-th waypoint (from 0) carries the target \<open>(j + 1) * interval_mi\<close>.
\<close>

definition sample_inv ::
  "floatlib \<Rightarrow> real \<Rightarrow> real \<Rightarrow> waypoint list \<Rightarrow> real \<Rightarrow> nat \<Rightarrow> bool" where
  "sample_inv fl interval_mi bound waypoints next_target wp_index \<longleftrightarrow>
     1 \<le> wp_index \<and> next_target = real wp_index * interval_mi \<and>
     length waypoints = wp_index - 1 \<and> next_target - interval_mi \<le> bound \<and>
     (\<forall>j < length waypoints.
        mile (waypoints ! j) = rnd fl (py_round (real (j + 1) * interval_mi) 1) \<and>
        label (waypoints ! j) = Checkpoint (j + 1) (round_half_even (real (j + 1) * interval_mi)))"

text \<open>
  The point of the route at a distance \<open>d\<close> from its start, for \<open>d\<close> above the distance
  \<open>accumulated\<close> at \<open>prev\<close>: on the first segment whose accumulated end is at least \<open>d\<close>
  away, at the fraction of that segment that \<open>d\<close> cuts off, computed as the sampler
  computes it. \<open>None\<close> beyond the end of the route and where a segment raises.
\<close>

fun point_at ::
  "floatlib \<Rightarrow> real \<times> real \<Rightarrow> (real \<times> real) list \<Rightarrow> real \<Rightarrow> real \<Rightarrow> (real \<times> real) option" where
  "point_at fl prev [] accumulated d = None"
| "point_at fl prev (cur # rest) accumulated d =
     (case haversine_mi fl (fst prev) (snd prev) (fst cur) (snd cur) of
        Inl e \<Rightarrow> None
      | Inr seg_dist \<Rightarrow>
          if d \<le> rnd fl (accumulated + seg_dist)
          then Some (interpolate_point fl (fst prev) (snd prev) (fst cur) (snd cur)
                       (rnd fl (rnd fl (d - accumulated) / seg_dist)))
          else point_at fl cur rest (rnd fl (accumulated + seg_dist)) d)"

text \<open>
  The waypoints sampled so far lie where \<open>Q\<close> says: the \<open>j\<close>-th (from 0) at the distance
  \<open>(j + 1) * interval_mi\<close>.
\<close>

definition pos_inv :: "(real \<Rightarrow> real \<times> real \<Rightarrow> bool) \<Rightarrow> real \<Rightarrow> waypoint list \<Rightarrow> bool" where
  "pos_inv Q interval_mi waypoints \<longleftrightarrow>
     (\<forall>j < length waypoints.
        Q (real (j + 1) * interval_mi) (lon (waypoints ! j), lat (waypoints ! j)))"

subsection \<open>routing.py: arrival time estimation\<close>

text \<open>
  \<open>datetime.max\<close> is 9999-12-31T23:59:59.999999, the last microsecond of day 3652059
  counted from 0001-01-01.
\<close>

definition DATETIME_END_US :: int where
  "DATETIME_END_US = 3652059 * 86400 * 1000000"

text \<open>
  \<^verbatim>\<open>wp["mile"] / avg_speed_mph\<close>: division by a zero float raises; a finite float divided by
  an infinite one is zero, by \<open>nan\<close> it is \<open>nan\<close>.
\<close>

definition hours_elapsed :: "real \<Rightarrow> pyfloat \<Rightarrow> exn + pyfloat" where
  "hours_elapsed m avg_speed_mph =
     (case avg_speed_mph of
        Fin v \<Rightarrow> if v = 0 then Inl ZeroDivisionError else Inr (Fin (m / v))
      | NaN \<Rightarrow> Inr NaN
      | PosInf \<Rightarrow> Inr (Fin 0)
      | NegInf \<Rightarrow> Inr (Fin 0))"

text \<open>
  \<^verbatim>\<open>timedelta(hours=h)\<close> in microseconds: the constructor rounds a float argument to the
  nearest microsecond, halves to even. A \<open>timedelta\<close> holds less than \<open>10^9\<close> days.
\<close>

definition timedelta_hours :: "pyfloat \<Rightarrow> exn + int" where
  "timedelta_hours h =
     (case h of
        Fin x \<Rightarrow>
          (let us = round_half_even (x * 3600000000)
           in if \<bar>us\<bar> < 1000000000 * 86400 * 1000000 then Inr us else Inl OverflowError)
      | NaN \<Rightarrow> Inl ValueError
      | PosInf \<Rightarrow> Inl OverflowError
      | NegInf \<Rightarrow> Inl OverflowError)"

text \<open>\<^verbatim>\<open>dt + timedelta\<close>: the zone is kept, a result outside the range raises.\<close>

definition datetime_add :: "datetime \<Rightarrow> int \<Rightarrow> exn + datetime" where
  "datetime_add dt us =
     (let r = local_us dt + us
      in if 0 \<le> r \<and> r < DATETIME_END_US then Inr (dt\<lparr>local_us := r\<rparr>) else Inl OverflowError)"

definition arrival_of :: "datetime \<Rightarrow> pyfloat \<Rightarrow> real \<Rightarrow> exn + datetime" where
  "arrival_of departure_dt avg_speed_mph m =
     (case hours_elapsed m avg_speed_mph of
        Inl e \<Rightarrow> Inl e
      | Inr h \<Rightarrow>
          (case timedelta_hours h of
             Inl e \<Rightarrow> Inl e
           | Inr us \<Rightarrow> datetime_add departure_dt us))"

fun estimate_arrival_times :: "waypoint list \<Rightarrow> datetime \<Rightarrow> pyfloat \<Rightarrow> exn + waypoint list" where
  "estimate_arrival_times [] departure_dt avg_speed_mph = Inr []"
| "estimate_arrival_times (wp # wps) departure_dt avg_speed_mph =
     (case arrival_of departure_dt avg_speed_mph (mile wp) of
        Inl e \<Rightarrow> Inl e
      | Inr arrival \<Rightarrow>
          (case estimate_arrival_times wps departure_dt avg_speed_mph of
             Inl e \<Rightarrow> Inl e
           | Inr wps' \<Rightarrow>
               Inr (wp\<lparr>arrival_dt := Some arrival, arrival_str := Some arrival\<rparr> # wps')))"

subsection \<open>Python conversions used by weather.py\<close>

text \<open>Decimal rendering of an integer, as an f-string prints it.\<close>

fun show_nat :: "nat \<Rightarrow> string" where
  "show_nat n =
     (if n < 10 then [''0123456789'' ! n]
      else show_nat (n div 10) @ [''0123456789'' ! (n mod 10)])"

definition show_int :: "int \<Rightarrow> string" where
  "show_int k = (if k < 0 then CHR ''-'' # show_nat (nat (- k)) else show_nat (nat k))"

text \<open>\<open>int(x)\<close> of a float truncates towards zero.\<close>

definition py_trunc :: "real \<Rightarrow> int" where
  "py_trunc x = (if 0 \<le> x then \<lfloor>x\<rfloor> else \<lceil>x\<rceil>)"

text \<open>
  \<open>int(v)\<close>: \<open>TypeError\<close> on \<open>None\<close> and on objects that are no numbers, \<open>ValueError\<close> on
  \<open>nan\<close> and on text that is no integer literal, \<open>OverflowError\<close> on an infinite float.
\<close>

definition py_int :: "pylib \<Rightarrow> pyval \<Rightarrow> exn + int" where
  "py_int py v =
     (case v of
        PyNone \<Rightarrow> Inl TypeError
      | PyInt n \<Rightarrow> Inr n
      | PyFloat f \<Rightarrow>
          (case f of
             Fin x \<Rightarrow> Inr (py_trunc x)
           | NaN \<Rightarrow> Inl ValueError
           | PosInf \<Rightarrow> Inl OverflowError
           | NegInf \<Rightarrow> Inl OverflowError)
      | PyStr t \<Rightarrow> (case int_of_str py t of None \<Rightarrow> Inl ValueError | Some n \<Rightarrow> Inr n)
      | PyObj \<Rightarrow> Inl TypeError)"

text \<open>
  \<open>float(v)\<close>: an integer that rounds to \<open>2^1024\<close> or beyond raises \<open>OverflowError\<close>.
\<close>

definition py_float :: "pylib \<Rightarrow> pyval \<Rightarrow> exn + pyfloat" where
  "py_float py v =
     (case v of
        PyNone \<Rightarrow> Inl TypeError
      | PyInt n \<Rightarrow>
          if \<bar>n\<bar> < 2 ^ 1024 - 2 ^ 970 then Inr (Fin (of_int n)) else Inl OverflowError
      | PyFloat f \<Rightarrow> Inr f
      | PyStr t \<Rightarrow> (case float_of_str py t of None \<Rightarrow> Inl ValueError | Some f \<Rightarrow> Inr f)
      | PyObj \<Rightarrow> Inl TypeError)"

text \<open>Arithmetic of the record fields on floats that may be \<open>nan\<close> or infinite.\<close>

text \<open>\<^verbatim>\<open>x or 0.0\<close>: \<open>None\<close> and \<open>0.0\<close> are false, \<open>nan\<close> is true.\<close>

definition or_zero :: "pyfloat option \<Rightarrow> pyfloat" where
  "or_zero x = (case x of None \<Rightarrow> Fin 0 | Some f \<Rightarrow> f)"

text \<open>\<^verbatim>\<open>round(f, ndigits)\<close> returns a float that is not finite unchanged.\<close>

definition fl_round :: "pyfloat \<Rightarrow> nat \<Rightarrow> pyfloat" where
  "fl_round f ndigits = (case f of Fin x \<Rightarrow> Fin (py_round x ndigits) | _ \<Rightarrow> f)"

text \<open>Multiplication by a positive finite constant.\<close>

definition fl_scale :: "pyfloat \<Rightarrow> real \<Rightarrow> pyfloat" where
  "fl_scale f c = (case f of Fin x \<Rightarrow> Fin (x * c) | _ \<Rightarrow> f)"

text \<open>\<^verbatim>\<open>min(f, c)\<close> returns its first argument unless the second is smaller.\<close>

definition fl_min :: "pyfloat \<Rightarrow> real \<Rightarrow> pyfloat" where
  "fl_min f c =
     (case f of Fin x \<Rightarrow> Fin (if c < x then c else x) | NaN \<Rightarrow> NaN | PosInf \<Rightarrow> Fin c
      | NegInf \<Rightarrow> NegInf)"

text \<open>\<^verbatim>\<open>f >= c\<close>\<close>

definition fl_ge :: "pyfloat \<Rightarrow> real \<Rightarrow> bool" where
  "fl_ge f c = (case f of Fin x \<Rightarrow> c \<le> x | NaN \<Rightarrow> False | PosInf \<Rightarrow> True | NegInf \<Rightarrow> False)"

subsection \<open>weather.py: precipitation type decoder\<close>

definition PRECIP_TYPE_MAP :: "int \<Rightarrow> (string option \<times> string) option" where
  "PRECIP_TYPE_MAP = map_of
     [(0, (None, ''No precipitation'')),
      (1, (Some ''rain'', ''Rain'')),
      (3, (Some ''freezing_rain'', ''Freezing rain'')),
      (5, (Some ''snow'', ''Snow'')),
      (6, (Some ''snow'', ''Wet snow'')),
      (7, (Some ''sleet'', ''Rain/snow mix'')),
      (8, (Some ''sleet'', ''Ice pellets'')),
      (12, (Some ''freezing_rain'', ''Freezing drizzle''))]"

text \<open>
  The dict \<^verbatim>\<open>{"precip_type": ..., "label": ...}\<close> is the pair \<open>(precip_type, label)\<close>. Only
  \<open>TypeError\<close> and \<open>ValueError\<close> of \<open>int(code)\<close> are caught.
\<close>

definition decode_precipitation_type :: "pylib \<Rightarrow> pyval \<Rightarrow> exn + (string option \<times> string)" where
  "decode_precipitation_type py code =
     (if code = PyNone then Inr (None, ''Unknown'')
      else case py_int py code of
             Inl TypeError \<Rightarrow> Inr (None, ''Unknown'')
           | Inl ValueError \<Rightarrow> Inr (None, ''Unknown'')
           | Inl e \<Rightarrow> Inl e
           | Inr c \<Rightarrow>
               (case PRECIP_TYPE_MAP c of
                  None \<Rightarrow> Inr (None, ''Type '' @ show_int c)
                | Some r \<Rightarrow> Inr r))"

definition WMO_LABEL :: "int \<Rightarrow> string option" where
  "WMO_LABEL = map_of
     [(0, ''Clear sky''), (1, ''Mainly clear''), (2, ''Partly cloudy''), (3, ''Overcast''),
      (45, ''Fog''), (48, ''Rime fog''),
      (51, ''Light drizzle''), (53, ''Moderate drizzle''), (55, ''Dense drizzle''),
      (56, ''Light freezing drizzle''), (57, ''Heavy freezing drizzle''),
      (61, ''Slight rain''), (63, ''Moderate rain''), (65, ''Heavy rain''),
      (66, ''Light freezing rain''), (67, ''Heavy freezing rain''),
      (71, ''Slight snow''), (73, ''Moderate snow''), (75, ''Heavy snow''), (77, ''Snow grains''),
      (80, ''Slight showers''), (81, ''Moderate showers''), (82, ''Heavy showers''),
      (85, ''Slight snow showers''), (86, ''Heavy snow showers''),
      (95, ''Thunderstorm''), (96, ''Thunderstorm w/ hail''), (99, ''Thunderstorm w/ hail'')]"

definition WMO_PRECIP_TYPE :: "int \<Rightarrow> string option" where
  "WMO_PRECIP_TYPE = map_of
     [(45, ''fog''), (48, ''fog''),
      (80, ''showers''), (81, ''showers''), (82, ''showers''),
      (85, ''snow_showers''), (86, ''snow_showers''),
      (95, ''thunderstorm''), (96, ''thunderstorm''), (99, ''thunderstorm'')]"

text \<open>Truth value of an optional string: \<open>None\<close> and the empty string are false.\<close>

definition truthy :: "string option \<Rightarrow> bool" where
  "truthy x = (case x of None \<Rightarrow> False | Some t \<Rightarrow> t \<noteq> [])"

text \<open>
  The refinement by the WMO code in \<open>_fetch_one\<close> (the block under
  \<^verbatim>\<open>if wmo_int is not None\<close>), on the pair \<open>(precip_type, condition)\<close> of the first stage.
\<close>

definition wmo_refine ::
  "string option \<times> string option \<Rightarrow> int option \<Rightarrow> string option \<times> string option" where
  "wmo_refine primary wmo_int =
     (case wmo_int of
        None \<Rightarrow> primary
      | Some w \<Rightarrow>
          (let precip_type' = fst primary; condition' = snd primary;
               wmo_override = WMO_PRECIP_TYPE w; wmo_label = WMO_LABEL w
           in if wmo_override = Some ''fog'' \<or> wmo_override = Some ''thunderstorm''
              then (wmo_override, wmo_label)
              else if precip_type' = None \<and> truthy wmo_override then (wmo_override, wmo_label)
              else if precip_type' = None \<and> truthy wmo_label then (precip_type', wmo_label)
              else (precip_type', condition')))"

text \<open>\<^verbatim>\<open>int(weather_code) if weather_code is not None else None\<close>\<close>

definition int_or_none :: "pylib \<Rightarrow> pyfloat option \<Rightarrow> exn + int option" where
  "int_or_none py x =
     (case x of
        None \<Rightarrow> Inr None
      | Some f \<Rightarrow> (case py_int py (PyFloat f) of Inl e \<Rightarrow> Inl e | Inr n \<Rightarrow> Inr (Some n)))"

text \<open>
  The two stages of \<open>_fetch_one\<close> together: the decoded precipitation type, then the
  refinement. The arguments are results of \<open>val\<close>, floats or \<open>None\<close>.
\<close>

definition decode_conditions ::
  "pylib \<Rightarrow> pyfloat option \<Rightarrow> pyfloat option \<Rightarrow> exn + (string option \<times> string option)" where
  "decode_conditions py precip_type_code' weather_code' =
     (case decode_precipitation_type py
             (case precip_type_code' of None \<Rightarrow> PyNone | Some f \<Rightarrow> PyFloat f) of
        Inl e \<Rightarrow> Inl e
      | Inr pt_decoded \<Rightarrow>
          (case int_or_none py weather_code' of
             Inl e \<Rightarrow> Inl e
           | Inr wmo_int \<Rightarrow>
               Inr (wmo_refine (fst pt_decoded, Some (snd pt_decoded)) wmo_int)))"

subsection \<open>weather.py: forecast time alignment\<close>

text \<open>
  \<^verbatim>\<open>t - target\<close> in microseconds: two naive values subtract as they are, two aware values as
  instants, and a naive with an aware value raises \<open>TypeError\<close>.
\<close>

definition datetime_sub :: "datetime \<Rightarrow> datetime \<Rightarrow> exn + int" where
  "datetime_sub t target =
     (case (utcoffset t, utcoffset target) of
        (None, None) \<Rightarrow> Inr (local_us t - local_us target)
      | (Some a, Some b) \<Rightarrow> Inr ((local_us t - a) - (local_us target - b))
      | _ \<Rightarrow> Inl TypeError)"

text \<open>
  The scan of \<open>_nearest_hour_index\<close>, from position \<open>i\<close>. \<open>best_diff\<close> is in microseconds,
  \<open>None\<close> is \<^verbatim>\<open>float("inf")\<close>. The code compares \<open>total_seconds()\<close>, a float; two
  differences of at most twelve hours are different floats when they differ, and a
  difference above twelve hours is a float above \<open>43200.0\<close>, so the result is that of
  the exact comparison. \<open>fromisoformat\<close> of a value that is no string raises \<open>TypeError\<close>,
  which the \<^verbatim>\<open>except ValueError\<close> does not catch.
\<close>

fun nearest_scan ::
  "pylib \<Rightarrow> datetime \<Rightarrow> nat \<Rightarrow> pyval list \<Rightarrow> nat option \<Rightarrow> int option \<Rightarrow>
   exn + (nat option \<times> int option)" where
  "nearest_scan py target i [] best_idx best_diff = Inr (best_idx, best_diff)"
| "nearest_scan py target i (t_str # rest) best_idx best_diff =
     (case t_str of
        PyStr stamp \<Rightarrow>
          (case fromisoformat py stamp of
             None \<Rightarrow> nearest_scan py target (i + 1) rest best_idx best_diff
           | Some t \<Rightarrow>
               (case datetime_sub t target of
                  Inl e \<Rightarrow> Inl e
                | Inr d \<Rightarrow>
                    (let diff = \<bar>d\<bar>
                     in if (case best_diff of None \<Rightarrow> True | Some b \<Rightarrow> diff < b)
                        then nearest_scan py target (i + 1) rest (Some i) (Some diff)
                        else nearest_scan py target (i + 1) rest best_idx best_diff)))
      | _ \<Rightarrow> Inl TypeError)"

definition TWELVE_HOURS_US :: int where
  "TWELVE_HOURS_US = 12 * 3600 * 1000000"

definition nearest_hour_index :: "pylib \<Rightarrow> pyval list \<Rightarrow> datetime \<Rightarrow> exn + nat option" where
  "nearest_hour_index py times' target =
     (case nearest_scan py target 0 times' None None of
        Inl e \<Rightarrow> Inl e
      | Inr (best_idx, best_diff) \<Rightarrow>
          (case best_diff of
             None \<Rightarrow> Inr None
           | Some b \<Rightarrow> if b \<le> TWELVE_HOURS_US then Inr best_idx else Inr None))"

text \<open>
  The distance of entry \<open>j\<close> of a series of strings to the target, in microseconds: \<open>None\<close>
  when the entry does not parse.
\<close>

definition diff_at :: "pylib \<Rightarrow> string list \<Rightarrow> datetime \<Rightarrow> nat \<Rightarrow> int option" where
  "diff_at py series target j =
     (case fromisoformat py (series ! j) of
        None \<Rightarrow> None
      | Some t \<Rightarrow> (case datetime_sub t target of Inl e \<Rightarrow> None | Inr d \<Rightarrow> Some \<bar>d\<bar>))"

text \<open>
  An entry is comparable with the target when it does not parse, or carries a zone
  exactly when the target does.
\<close>

definition comparable :: "pylib \<Rightarrow> datetime \<Rightarrow> string \<Rightarrow> bool" where
  "comparable py target stamp =
     (case fromisoformat py stamp of
        None \<Rightarrow> True
      | Some t \<Rightarrow> (utcoffset t = None) = (utcoffset target = None))"

subsection \<open>weather.py: one retrieval\<close>

definition weather_unavailable :: "reason \<Rightarrow> weather" where
  "weather_unavailable r =
     \<lparr> available = False, reason = Some r, temp_f = None,
       precip_in_hr = Fin 0, rain_in_hr = Fin 0, showers_in_hr = Fin 0,
       snowfall_in_hr = Fin 0, cloud_pct = Fin 0, wind_mph = Fin 0,
       wind_dir = [CHR 0xE2, CHR 0x80, CHR 0x94], vis_mi = Fin 0, wind_warning = False,
       precip_type_code = None, weather_code = None,
       condition = Some ''Unavailable'', precip_type = None \<rparr>"

definition directions :: "string list" where
  "directions = [''N'', ''NNE'', ''NE'', ''ENE'', ''E'', ''ESE'', ''SE'', ''SSE'',
                 ''S'', ''SSW'', ''SW'', ''WSW'', ''W'', ''WNW'', ''NW'', ''NNW'']"

text \<open>
  \<open>round\<close> without digits returns an integer, and raises on \<open>nan\<close> and on an infinite
  float. The dash is the three bytes of U+2014.
\<close>

definition degrees_to_compass :: "pyfloat option \<Rightarrow> exn + string" where
  "degrees_to_compass degrees =
     (case degrees of
        None \<Rightarrow> Inr [CHR 0xE2, CHR 0x80, CHR 0x94]
      | Some f \<Rightarrow>
          (case f of
             Fin d \<Rightarrow> Inr (directions ! nat (round_half_even (d / 22.5) mod 16))
           | NaN \<Rightarrow> Inl ValueError
           | PosInf \<Rightarrow> Inl OverflowError
           | NegInf \<Rightarrow> Inl OverflowError))"

text \<open>
  The answer of the forecast service to one request: \<open>requests.get\<close> raises, or returns a
  status code and a body; \<open>resp.json()\<close> raises, or returns an object whose key
  \<open>hourly\<close>, when present, maps names to arrays. Payloads of another shape are not
  modelled.
\<close>

record response =
  status_code :: int
  json :: "exn + (string \<Rightarrow> pyval list option) option"

text \<open>The local function \<open>val\<close> of \<open>_fetch_one\<close>.\<close>

definition val ::
  "pylib \<Rightarrow> (string \<Rightarrow> pyval list option) \<Rightarrow> nat \<Rightarrow> string \<Rightarrow> pyfloat option \<Rightarrow>
   exn + pyfloat option" where
  "val py hourly best_idx key fallback =
     (let arr = (case hourly key of None \<Rightarrow> [] | Some a \<Rightarrow> a)
      in if best_idx < length arr \<and> arr ! best_idx \<noteq> PyNone then
           (case py_float py (arr ! best_idx) of
              Inl TypeError \<Rightarrow> Inr fallback
            | Inl ValueError \<Rightarrow> Inr fallback
            | Inl e \<Rightarrow> Inl e
            | Inr f \<Rightarrow> Inr (Some f))
         else Inr fallback)"

text \<open>Sequencing of steps that may raise.\<close>

definition ebind :: "exn + 'a \<Rightarrow> ('a \<Rightarrow> exn + 'b) \<Rightarrow> exn + 'b" where
  "ebind m f = (case m of Inl e \<Rightarrow> Inl e | Inr x \<Rightarrow> f x)"

text \<open>
  \<^verbatim>\<open>arrival_dt.astimezone(timezone.utc).replace(tzinfo=None)\<close> of an aware value, the value
  itself when it is naive.
\<close>

definition to_naive_utc :: "datetime \<Rightarrow> exn + datetime" where
  "to_naive_utc dt =
     (case utcoffset dt of
        None \<Rightarrow> Inr dt
      | Some off \<Rightarrow>
          (let r = local_us dt - off
           in if 0 \<le> r \<and> r < DATETIME_END_US
              then Inr \<lparr> local_us = r, utcoffset = None \<rparr> else Inl OverflowError))"

text \<open>The part of \<open>_fetch_one\<close> after \<open>best_idx\<close> is found.\<close>

definition build_record ::
  "pylib \<Rightarrow> (string \<Rightarrow> pyval list option) \<Rightarrow> nat \<Rightarrow> real \<Rightarrow> exn + weather" where
  "build_record py hourly best_idx wind_warning_mph =
     ebind (val py hourly best_idx ''temperature_2m'' None) (\<lambda>temp_f'.
     ebind (val py hourly best_idx ''precipitation'' (Some (Fin 0))) (\<lambda>precip_total.
     ebind (val py hourly best_idx ''rain'' (Some (Fin 0))) (\<lambda>rain_in.
     ebind (val py hourly best_idx ''showers'' (Some (Fin 0))) (\<lambda>showers_in.
     ebind (val py hourly best_idx ''snowfall'' (Some (Fin 0))) (\<lambda>snowfall_cm.
     ebind (val py hourly best_idx ''precipitation_type'' None) (\<lambda>precip_type_code'.
     ebind (val py hourly best_idx ''weather_code'' None) (\<lambda>weather_code'.
     ebind (val py hourly best_idx ''cloud_cover'' (Some (Fin 0))) (\<lambda>cloud_pct'.
     ebind (val py hourly best_idx ''wind_speed_10m'' (Some (Fin 0))) (\<lambda>wind_mph'.
     ebind (val py hourly best_idx ''wind_direction_10m'' (Some (Fin 0))) (\<lambda>wind_deg.
     ebind (val py hourly best_idx ''visibility'' (Some (Fin 16000))) (\<lambda>vis_m.
     (let snowfall_in = fl_scale (or_zero snowfall_cm) 0.393701;
          vis_mi' = fl_scale (or_zero vis_m) (1 / 1609.34)
      in
     ebind (degrees_to_compass wind_deg) (\<lambda>wind_dir'.
     ebind (decode_precipitation_type py
              (case precip_type_code' of None \<Rightarrow> PyNone | Some f \<Rightarrow> PyFloat f)) (\<lambda>pt_decoded.
     ebind (int_or_none py weather_code') (\<lambda>wmo_int.
     (let refined = wmo_refine (fst pt_decoded, Some (snd pt_decoded)) wmo_int
      in
     ebind (int_or_none py precip_type_code') (\<lambda>code_int.
       Inr \<lparr> available = True, reason = None,
             temp_f = map_option (\<lambda>f. fl_round f 1) temp_f',
             precip_in_hr = fl_round (or_zero precip_total) 4,
             rain_in_hr = fl_round (or_zero rain_in) 4,
             showers_in_hr = fl_round (or_zero showers_in) 4,
             snowfall_in_hr = fl_round snowfall_in 4,
             cloud_pct = fl_round (or_zero cloud_pct') 1,
             wind_mph = fl_round (or_zero wind_mph') 1,
             wind_dir = wind_dir',
             vis_mi = fl_round (fl_min vis_mi' 99) 1,
             wind_warning = fl_ge (or_zero wind_mph') wind_warning_mph,
             precip_type_code = code_int,
             weather_code = wmo_int,
             condition = snd refined,
             precip_type = fst refined \<rparr>)))))))))))))))))"

definition fetch_one :: "pylib \<Rightarrow> exn + response \<Rightarrow> waypoint \<Rightarrow> real \<Rightarrow> exn + weather" where
  "fetch_one py http wp wind_warning_mph =
     (case arrival_dt wp of
        None \<Rightarrow> Inl KeyError
      | Some arrival \<Rightarrow>
          ebind (to_naive_utc arrival) (\<lambda>arrival_utc.
          ebind http (\<lambda>resp.
            if status_code resp \<noteq> 200
            then Inr (weather_unavailable (HttpStatus (status_code resp)))
            else
              ebind (json resp) (\<lambda>data.
                case data of
                  None \<Rightarrow> Inr (weather_unavailable NoHourly)
                | Some hourly \<Rightarrow>
                    (let times' = (case hourly ''time'' of None \<Rightarrow> [] | Some a \<Rightarrow> a)
                     in if times' = [] then Inr (weather_unavailable EmptySeries)
                        else
                          ebind (nearest_hour_index py times' arrival_utc) (\<lambda>best_idx.
                            case best_idx of
                              None \<Rightarrow> Inr (weather_unavailable (OutsideWindow arrival_utc))
                            | Some i \<Rightarrow> build_record py hourly i wind_warning_mph))))))"

subsection \<open>weather.py: the fetch stage\<close>

text \<open>
  What the loop over \<open>as_completed\<close> stores for one future: its result, or the
  unavailable record of the exception it raised.
\<close>

definition future_weather :: "exn + weather \<Rightarrow> weather" where
  "future_weather r = (case r of Inl e \<Rightarrow> weather_unavailable (StrOfExn e) | Inr w \<Rightarrow> w)"

text \<open>
  The stage submits one call of \<open>_fetch_one\<close> per waypoint and stores the results in the
  order in which the futures complete. \<open>https i\<close> is the answer to the request of
  waypoint \<open>i\<close>, \<open>order\<close> the completion order. A future reads the waypoint it was
  submitted with; the keys it reads are not written by the loop.
\<close>

fun store_results ::
  "(nat \<Rightarrow> weather) \<Rightarrow> nat list \<Rightarrow> waypoint list \<Rightarrow> waypoint list" where
  "store_results result [] waypoints = waypoints"
| "store_results result (idx # rest) waypoints =
     store_results result rest
       (waypoints[idx := (waypoints ! idx)\<lparr>weather := Some (result idx)\<rparr>])"

definition fetch_weather_for_waypoints ::
  "pylib \<Rightarrow> (nat \<Rightarrow> exn + response) \<Rightarrow> nat list \<Rightarrow> waypoint list \<Rightarrow> real \<Rightarrow> waypoint list" where
  "fetch_weather_for_waypoints py https order waypoints wind_warning_mph =
     store_results
       (\<lambda>i. future_weather (fetch_one py (https i) (waypoints ! i) wind_warning_mph))
       order waypoints"

subsection \<open>app.py: the planning request\<close>

text \<open>
  The form of a request: the three text fields after \<^verbatim>\<open>.get(key, "").strip()\<close>, and the fields
  \<open>interval\<close> and \<open>avg_speed\<close>, \<open>None\<close> when the form does not carry them.
\<close>

record form =
  start_addr :: string
  end_addr :: string
  depart_str :: string
  interval_field :: "string option"
  avg_speed_field :: "string option"

record route_data =
  coords :: "(real \<times> real) list"
  distance_mi :: real
  duration_hrs :: real

text \<open>
  What the request meets outside the process: the geocoder (it raises \<open>RuntimeError\<close>
  without a contact address and returns \<open>None\<close> on every other failure), the routing
  service (\<open>None\<close> on failure), the forecast answers and their completion order, and the
  configured wind threshold.
\<close>

record services =
  geocode :: "string \<Rightarrow> exn + (real \<times> real) option"
  get_route :: "real \<times> real \<Rightarrow> real \<times> real \<Rightarrow> route_data option"
  forecasts :: "nat \<Rightarrow> exn + response"
  completion :: "nat list"
  WIND_WARNING_MPH :: int

text \<open>
  The page a request renders: the index template with error messages, or the result
  template with the annotated waypoints and the arrival time of the whole trip. The map
  and the formatting of the template are not modelled.
\<close>

datatype page = ErrorPage "string list" | ResultPage "waypoint list" datetime

text \<open>
  \<open>plan\<close>. \<open>None\<close>: the request never returns; \<open>Some (Inl e)\<close>: the handler raises \<open>e\<close>.
  The interval is the \<open>int\<close> that the handler reads from the form.
\<close>

definition plan :: "pylib \<Rightarrow> floatlib \<Rightarrow> services \<Rightarrow> form \<Rightarrow> (exn + page) option" where
  "plan py fl world request =
     (case (case interval_field request of
              None \<Rightarrow> Inr 50
            | Some t \<Rightarrow> (case int_of_str py t of None \<Rightarrow> Inl ValueError | Some n \<Rightarrow> Inr n)) of
        Inl e \<Rightarrow> Some (Inl e)
      | Inr interval_mi \<Rightarrow>
     (case (case avg_speed_field request of
              None \<Rightarrow> Inr (Fin 60)
            | Some t \<Rightarrow> (case float_of_str py t of None \<Rightarrow> Inl ValueError | Some f \<Rightarrow> Inr f)) of
        Inl e \<Rightarrow> Some (Inl e)
      | Inr avg_speed \<Rightarrow>
     (let errors =
            (if start_addr request = [] then [''Starting address is required.''] else []) @
            (if end_addr request = [] then [''Ending address is required.''] else []) @
            (if depart_str request = [] then [''Departure date & time is required.''] else [])
      in if errors \<noteq> [] then Some (Inr (ErrorPage errors))
         else
     (case fromisoformat py (depart_str request) of
        None \<Rightarrow> Some (Inr (ErrorPage [''Invalid date/time format.'']))
      | Some departure_dt \<Rightarrow>
     (case geocode world (start_addr request) of
        Inl e \<Rightarrow> Some (Inl e)
      | Inr start_coords \<Rightarrow>
     (case geocode world (end_addr request) of
        Inl e \<Rightarrow> Some (Inl e)
      | Inr end_coords \<Rightarrow>
     (case start_coords of
        None \<Rightarrow>
          Some (Inr (ErrorPage [''Could not find address: '' @ [CHR 0x22] @ start_addr request @ [CHR 0x22]]))
      | Some sc \<Rightarrow>
     (case end_coords of
        None \<Rightarrow>
          Some (Inr (ErrorPage [''Could not find address: '' @ [CHR 0x22] @ end_addr request @ [CHR 0x22]]))
      | Some ec \<Rightarrow>
     (case get_route world sc ec of
        None \<Rightarrow> Some (Inr (ErrorPage [''Could not compute route. Check your ORS API key.'']))
      | Some rd \<Rightarrow>
     (case sample_waypoints fl (coords rd) (of_int interval_mi) (distance_mi rd) of
        None \<Rightarrow> None
      | Some (Inl e) \<Rightarrow> Some (Inl e)
      | Some (Inr sampled) \<Rightarrow>
     (case estimate_arrival_times sampled departure_dt avg_speed of
        Inl e \<Rightarrow> Some (Inl e)
      | Inr timed \<Rightarrow>
     (let annotated =
            fetch_weather_for_waypoints py (forecasts world) (completion world) timed
              (of_int (WIND_WARNING_MPH world))
      in case ebind (timedelta_hours (Fin (duration_hrs rd))) (datetime_add departure_dt) of
           Inl e \<Rightarrow> Some (Inl e)
         | Inr eta \<Rightarrow> Some (Inr (ResultPage annotated eta))))))))))))))"



text \<open>
  The invariant of the scan after \<open>n\<close> entries: no entry parsed so far and nothing is
  selected, or the selected index is the first among the first \<open>n\<close> entries whose distance
  is the least.
\<close>

definition nearest_inv ::
  "pylib \<Rightarrow> string list \<Rightarrow> datetime \<Rightarrow> nat \<Rightarrow> nat option \<Rightarrow> int option \<Rightarrow> bool" where
  "nearest_inv py series target n best_idx best_diff =
     (case best_diff of
        None \<Rightarrow> best_idx = None \<and> (\<forall>j < n. diff_at py series target j = None)
      | Some b \<Rightarrow>
          (\<exists>k < n. best_idx = Some k \<and> diff_at py series target k = Some b \<and>
             (\<forall>j < n. \<forall>d. diff_at py series target j = Some d \<longrightarrow> b \<le> d) \<and>
             (\<forall>j < k. \<forall>d. diff_at py series target j = Some d \<longrightarrow> b < d)))"

text \<open>
  The value of an array at the selected index, \<open>None\<close> when the array is absent or too
  short; the finite number such a value converts to; and the number a field takes, with
  its default when the value is null.
\<close>

definition cell :: "(string \<Rightarrow> pyval list option) \<Rightarrow> nat \<Rightarrow> string \<Rightarrow> pyval" where
  "cell hourly i key =
     (case hourly key of
        None \<Rightarrow> PyNone
      | Some arr \<Rightarrow> if i < length arr then arr ! i else PyNone)"

definition finite_number :: "pyval \<Rightarrow> real option" where
  "finite_number v =
     (case v of
        PyFloat (Fin x) \<Rightarrow> Some x
      | PyInt n \<Rightarrow> if \<bar>n\<bar> < 2 ^ 1024 - 2 ^ 970 then Some (of_int n) else None
      | _ \<Rightarrow> None)"

definition numeric_or_null :: "pyval \<Rightarrow> bool" where
  "numeric_or_null v \<longleftrightarrow> v = PyNone \<or> finite_number v \<noteq> None"

definition num :: "(string \<Rightarrow> pyval list option) \<Rightarrow> nat \<Rightarrow> string \<Rightarrow> real \<Rightarrow> real" where
  "num hourly i key dflt =
     (case finite_number (cell hourly i key) of None \<Rightarrow> dflt | Some x \<Rightarrow> x)"

text \<open>The eleven arrays that \<open>_fetch_one\<close> reads at the selected index.\<close>

definition FIELDS :: "string list" where
  "FIELDS = [''temperature_2m'', ''precipitation'', ''rain'', ''showers'', ''snowfall'',
             ''precipitation_type'', ''weather_code'', ''cloud_cover'', ''wind_speed_10m'',
             ''wind_direction_10m'', ''visibility'']"

text \<open>
  The record that the selected index yields when every field takes its number, or its
  default where the value is null: 0.0 for the amounts, the cloud cover, the wind speed
  and the wind direction, 16000 metres for the visibility, and no value for the
  temperature and the two codes.
\<close>

definition defaulted_record ::
  "(string \<Rightarrow> pyval list option) \<Rightarrow> nat \<Rightarrow> real \<Rightarrow> weather" where
  "defaulted_record hourly i wind_warning_mph =
     (let code = finite_number (cell hourly i ''precipitation_type'');
          wmo = finite_number (cell hourly i ''weather_code'');
          primary =
            (case code of
               None \<Rightarrow> (None, ''Unknown'')
             | Some x \<Rightarrow>
                 (case PRECIP_TYPE_MAP (py_trunc x) of
                    None \<Rightarrow> (None, ''Type '' @ show_int (py_trunc x))
                  | Some r \<Rightarrow> r));
          refined = wmo_refine (fst primary, Some (snd primary)) (map_option py_trunc wmo)
      in \<lparr> available = True, reason = None,
           temp_f = map_option (\<lambda>x. Fin (py_round x 1))
                      (finite_number (cell hourly i ''temperature_2m'')),
           precip_in_hr = Fin (py_round (num hourly i ''precipitation'' 0) 4),
           rain_in_hr = Fin (py_round (num hourly i ''rain'' 0) 4),
           showers_in_hr = Fin (py_round (num hourly i ''showers'' 0) 4),
           snowfall_in_hr = Fin (py_round (num hourly i ''snowfall'' 0 * 0.393701) 4),
           cloud_pct = Fin (py_round (num hourly i ''cloud_cover'' 0) 1),
           wind_mph = Fin (py_round (num hourly i ''wind_speed_10m'' 0) 1),
           wind_dir =
             directions ! nat (round_half_even (num hourly i ''wind_direction_10m'' 0 / 22.5) mod 16),
           vis_mi = Fin (py_round (min (num hourly i ''visibility'' 16000 / 1609.34) 99) 1),
           wind_warning = (wind_warning_mph \<le> num hourly i ''wind_speed_10m'' 0),
           precip_type_code = map_option py_trunc code,
           weather_code = map_option py_trunc wmo,
           condition = snd refined,
           precip_type = fst refined \<rparr>)"

subsection \<open>Example inputs\<close>

text \<open>
  A library that parses the texts of the examples: 2024-01-01 is day 738885 after
  0001-01-01.
\<close>

definition example_py :: pylib where
  "example_py =
     \<lparr> fromisoformat = map_of
         [(''2024-01-01T08:00'', \<lparr> local_us = 63839692800000000, utcoffset = None \<rparr>),
          (''2024-01-01T09:00'', \<lparr> local_us = 63839696400000000, utcoffset = None \<rparr>),
          (''2024-01-01T10:00'', \<lparr> local_us = 63839700000000000, utcoffset = None \<rparr>),
          (''2024-01-03T00:00'', \<lparr> local_us = 63839836800000000, utcoffset = None \<rparr>),
          (''2024-01-01T09:00+00:00'', \<lparr> local_us = 63839696400000000, utcoffset = Some 0 \<rparr>)],
       int_of_str = map_of [(''0'', 0), (''-5'', - 5), (''50'', 50)],
       float_of_str = map_of [(''60'', Fin 60), (''0'', Fin 0)] \<rparr>"

text \<open>
  Services that find both addresses, route them along one degree of the equator and
  fail every forecast request.
\<close>

definition example_world :: services where
  "example_world =
     \<lparr> geocode = (\<lambda>a. Inr (Some (if a = ''A'' then (0, 0) else (1, 0)))),
       get_route = (\<lambda>a b. Some \<lparr> coords = [a, b], distance_mi = 69, duration_hrs = 1.2 \<rparr>),
       forecasts = (\<lambda>i. Inl RequestException),
       completion = [0, 1],
       WIND_WARNING_MPH = 40 \<rparr>"

definition example_request :: "string \<Rightarrow> string \<Rightarrow> form" where
  "example_request interval_text speed_text =
     \<lparr> start_addr = ''A'', end_addr = ''B'', depart_str = ''2024-01-01T08:00'',
       interval_field = Some interval_text, avg_speed_field = Some speed_text \<rparr>"

text \<open>
  A forecast of three hours whose temperature is null at 09:00, and a waypoint that is
  reached at 08:50.
\<close>

definition example_hourly :: "string \<Rightarrow> pyval list option" where
  "example_hourly = map_of
     [(''time'', [PyStr ''2024-01-01T08:00'', PyStr ''2024-01-01T09:00'',
                  PyStr ''2024-01-01T10:00'']),
      (''temperature_2m'', [PyFloat (Fin 30.2), PyNone, PyFloat (Fin 31)]),
      (''precipitation'', [PyInt 0, PyFloat (Fin 0.05), PyInt 0]),
      (''rain'', [PyInt 0, PyInt 0, PyInt 0]),
      (''showers'', [PyInt 0, PyInt 0, PyInt 0]),
      (''snowfall'', [PyInt 0, PyFloat (Fin 0.5), PyInt 0]),
      (''precipitation_type'', [PyInt 0, PyInt 5, PyInt 0]),
      (''weather_code'', [PyInt 3, PyInt 73, PyInt 3]),
      (''cloud_cover'', [PyInt 90, PyInt 100, PyInt 95]),
      (''wind_speed_10m'', [PyFloat (Fin 10), PyFloat (Fin 12.34), PyFloat (Fin 11)]),
      (''wind_direction_10m'', [PyInt 260, PyInt 270, PyInt 280]),
      (''visibility'', [PyInt 16000, PyInt 8000, PyInt 16000])]"

definition example_response :: response where
  "example_response = \<lparr> status_code = 200, json = Inr (Some example_hourly) \<rparr>"

definition example_waypoint :: "real \<times> real \<Rightarrow> waypoint" where
  "example_waypoint p =
     (destination exact_fl p 50)
       \<lparr> arrival_dt := Some \<lparr> local_us = 63839695800000000, utcoffset = None \<rparr>,
         arrival_str := Some \<lparr> local_us = 63839695800000000, utcoffset = None \<rparr> \<rparr>"

text \<open>The record decoded from that forecast at 09:00.\<close>

definition example_weather :: weather where
  "example_weather =
     \<lparr> available = True, reason = None, temp_f = None,
       precip_in_hr = Fin 0.05, rain_in_hr = Fin 0, showers_in_hr = Fin 0,
       snowfall_in_hr = Fin 0.1969, cloud_pct = Fin 100, wind_mph = Fin 12.3,
       wind_dir = ''W'', vis_mi = Fin 5, wind_warning = False,
       precip_type_code = Some 5, weather_code = Some 73,
       condition = Some ''Snow'', precip_type = Some ''snow'' \<rparr>"

text \<open>Two retrievals: the first request fails, the second is answered.\<close>

definition example_forecasts :: "nat \<Rightarrow> exn + response" where
  "example_forecasts i = (if i = 0 then Inl RequestException else Inr example_response)"

section \<open>Properties\<close>

subsection \<open>Rounding\<close>

lemma round_half_even_bounds:
  "\<lfloor>x\<rfloor> \<le> round_half_even x" "round_half_even x \<le> \<lfloor>x\<rfloor> + 1"
  by (simp_all add: round_half_even_def Let_def)

lemma round_half_even_mono:
  assumes "x \<le> y" shows "round_half_even x \<le> round_half_even y"
proof (cases "\<lfloor>x\<rfloor> = \<lfloor>y\<rfloor>")
  case True
  with assms show ?thesis
    by (auto simp: round_half_even_def Let_def)
next
  case False
  with assms have "\<lfloor>x\<rfloor> + 1 \<le> \<lfloor>y\<rfloor>"
    using floor_mono [of x y] by linarith
  then show ?thesis
    using round_half_even_bounds(2) [of x] round_half_even_bounds(1) [of y] by linarith
qed

lemma py_round_mono: "x \<le> y \<Longrightarrow> py_round x n \<le> py_round y n"
  unfolding py_round_def
  by (intro divide_right_mono round_half_even_mono mult_right_mono iffD2 [OF of_int_le_iff]) simp_all


lemma round_half_even_of_int [simp]: "round_half_even (of_int k) = k"
  by (simp add: round_half_even_def)


subsection \<open>Float arithmetic\<close>

lemma float_ok_exact: "float_ok exact_fl"
  by (simp add: float_ok_def exact_fl_def arcsin_nonneg)

lemma rnd_mono: "float_ok fl \<Longrightarrow> x \<le> y \<Longrightarrow> rnd fl x \<le> rnd fl y"
  by (simp add: float_ok_def)

lemma rnd_idem: "float_ok fl \<Longrightarrow> rnd fl (rnd fl x) = rnd fl x"
  by (simp add: float_ok_def)

lemma rnd_zero: "float_ok fl \<Longrightarrow> rnd fl 0 = 0"
  by (simp add: float_ok_def)

lemma rnd_nonneg: "float_ok fl \<Longrightarrow> 0 \<le> x \<Longrightarrow> 0 \<le> rnd fl x"
  using rnd_mono [of fl 0 x] by (simp add: rnd_zero)

lemma exact_targets_mono: "exact_targets fl iv A \<Longrightarrow> B \<le> A \<Longrightarrow> exact_targets fl iv B"
  unfolding exact_targets_def by (meson order_trans)

lemma exact_targets_exact: "exact_targets exact_fl iv A"
  by (simp add: exact_targets_def exact_fl_def)

subsection \<open>Great-circle distance\<close>

lemma haversine_mi_nonneg:
  assumes "float_ok fl" "haversine_mi fl lon1 lat1 lon2 lat2 = Inr s"
  shows "0 \<le> s"
proof -
  define a where "a = haversine_a fl lon1 lat1 lon2 lat2"
  from assms(2) have a: "0 \<le> a" and q: "fsqrt fl a \<le> 1"
    and s: "s = rnd fl (rnd fl (2 * rnd fl 3958.8) * fasin fl (fsqrt fl a))"
    by (auto simp: haversine_mi_def Let_def a_def split: if_splits)
  have "0 \<le> fsqrt fl a"
    using assms(1) a by (simp add: float_ok_def)
  then have "0 \<le> fasin fl (fsqrt fl a)"
    using assms(1) q by (simp add: float_ok_def)
  moreover have "0 \<le> rnd fl (2 * rnd fl 3958.8)"
    using assms(1) by (intro rnd_nonneg) (simp_all add: rnd_nonneg)
  ultimately show ?thesis
    unfolding s using assms(1) by (intro rnd_nonneg) simp_all
qed

lemma haversine_mi_same:
  assumes "float_ok fl"
  shows "haversine_mi fl lon1 lat1 lon1 lat1 = Inr 0"
proof -
  have z: "rnd fl 0 = 0" "fradians fl 0 = 0" "fsin fl 0 = 0" "fsquare fl 0 = 0"
    "fsqrt fl 0 = 0" "fasin fl 0 = 0"
    using assms by (simp_all add: float_ok_def)
  have "haversine_a fl lon1 lat1 lon1 lat1 = 0"
    by (simp add: haversine_a_def z)
  then show ?thesis
    by (simp add: haversine_mi_def z)
qed

subsection \<open>Great-circle distance in exact arithmetic\<close>

lemma haversine_a_exact:
  "haversine_a exact_fl lon1 lat1 lon2 lat2 =
     (sin ((lat2 - lat1) * pi / 180 / 2))\<^sup>2 +
     cos (lat1 * pi / 180) * cos (lat2 * pi / 180) * (sin ((lon2 - lon1) * pi / 180 / 2))\<^sup>2"
  by (simp add: haversine_a_def exact_fl_def)

lemma haversine_a_range:
  "0 \<le> haversine_a exact_fl lon1 lat1 lon2 lat2" "haversine_a exact_fl lon1 lat1 lon2 lat2 \<le> 1"
proof -
  define p1 where "p1 = lat1 * pi / 180"
  define p2 where "p2 = lat2 * pi / 180"
  define s where "s = (sin ((lon2 - lon1) * pi / 180 / 2))\<^sup>2"
  define c where "c = cos (p1 - p2)"
  define e where "e = cos (p1 + p2)"
  have ex: "haversine_a exact_fl lon1 lat1 lon2 lat2 =
      (sin ((p2 - p1) / 2))\<^sup>2 + cos p1 * cos p2 * s"
    by (simp add: haversine_a_exact p1_def p2_def s_def diff_divide_distrib algebra_simps)
  have s: "0 \<le> s" "s \<le> 1"
    unfolding s_def by (simp_all add: abs_square_le_1)
  have c: "- 1 \<le> c" "c \<le> 1" and e: "- 1 \<le> e" "e \<le> 1"
    unfolding c_def e_def by simp_all
  have "cos (2 * ((p2 - p1) / 2)) = 1 - 2 * (sin ((p2 - p1) / 2))\<^sup>2"
    by (rule cos_double_sin)
  moreover have "2 * ((p2 - p1) / 2) = p2 - p1"
    by simp
  moreover have "cos (p2 - p1) = c"
    unfolding c_def using cos_minus [of "p1 - p2"] by simp
  ultimately have "c = 1 - 2 * (sin ((p2 - p1) / 2))\<^sup>2"
    by metis
  then have h: "(sin ((p2 - p1) / 2))\<^sup>2 = (1 - c) / 2"
    by simp
  define cs where "cs = c * s"
  define es where "es = e * s"
  have "cos p1 * cos p2 = (c + e) / 2"
    by (simp add: cos_times_cos c_def e_def)
  then have a: "haversine_a exact_fl lon1 lat1 lon2 lat2 = (1 - c) / 2 + (cs + es) / 2"
    by (simp add: ex h cs_def es_def algebra_simps add_divide_distrib)
  have "0 \<le> (1 - c) * (1 - s)" "0 \<le> (1 + e) * s" "0 \<le> (1 + c) * (1 - s)" "0 \<le> (1 - e) * s"
    using s c e by simp_all
  then have f: "0 \<le> 1 - c - s + cs" "0 \<le> s + es" "0 \<le> 1 + c - s - cs" "0 \<le> s - es"
    unfolding cs_def es_def by (simp_all add: algebra_simps)
  show "0 \<le> haversine_a exact_fl lon1 lat1 lon2 lat2"
    unfolding a using f(1,2) by argo
  show "haversine_a exact_fl lon1 lat1 lon2 lat2 \<le> 1"
    unfolding a using f(3,4) by argo
qed

lemma haversine_mi_exact:
  "haversine_mi exact_fl lon1 lat1 lon2 lat2 =
     Inr (2 * 3958.8 * arcsin (sqrt (haversine_a exact_fl lon1 lat1 lon2 lat2)))"
proof -
  define a where "a = haversine_a exact_fl lon1 lat1 lon2 lat2"
  have a: "0 \<le> a" "a \<le> 1"
    unfolding a_def by (rule haversine_a_range)+
  have "0 \<le> sqrt a"
    using a by simp
  then have "\<not> sqrt a < - 1"
    by linarith
  moreover have "\<not> a < 0" "\<not> 1 < sqrt a"
    using a by (simp_all add: not_less)
  moreover have "rnd exact_fl x = x" "fsqrt exact_fl x = sqrt x" "fasin exact_fl x = arcsin x" for x
    by (simp_all add: exact_fl_def)
  ultimately show ?thesis
    by (simp add: haversine_mi_def Let_def a_def [symmetric])
qed

lemma pi_ge_3: "3 \<le> pi"
proof -
  have "sin (pi / 6) \<le> pi / 6"
    by (rule sin_x_le_x) simp
  then show ?thesis
    by (simp add: sin_30)
qed

lemma haversine_mi_equator_degree: "haversine_mi exact_fl 0 0 1 0 = Inr (3958.8 * pi / 180)"
proof -
  have a: "haversine_a exact_fl 0 0 1 0 = (sin (pi / 360))\<^sup>2"
    by (simp add: haversine_a_exact)
  have "0 \<le> sin (pi / 360)"
    by (rule sin_ge_zero) simp_all
  then have "sqrt (haversine_a exact_fl 0 0 1 0) = sin (pi / 360)"
    unfolding a by simp
  moreover have "arcsin (sin (pi / 360)) = pi / 360"
    by (rule arcsin_sin) simp_all
  ultimately show ?thesis
    by (simp add: haversine_mi_exact)
qed

lemma equator_degree_bounds: "65.98 \<le> 3958.8 * pi / 180" "3958.8 * pi / 180 < 87.98"
  using pi_ge_3 pi_less_4 by simp_all

subsection \<open>The sampler terminates and keeps its invariant\<close>

lemma sample_while_exit:
  "\<not> nt \<le> rnd fl (acc + seg) \<Longrightarrow>
   sample_while fl iv prev cur acc seg wps nt idx = Some (Inr (wps, nt, idx))"
  by (subst sample_while.simps) simp

lemma sample_while_step:
  "nt \<le> rnd fl (acc + seg) \<Longrightarrow> seg \<noteq> 0 \<Longrightarrow>
   sample_while fl iv prev cur acc seg wps nt idx =
   sample_while fl iv prev cur acc seg
     (wps @ [checkpoint fl prev cur (rnd fl (rnd fl (nt - acc) / seg)) nt idx])
     (rnd fl (nt + iv)) (idx + 1)"
  by (subst sample_while.simps) simp

lemma sample_while_zero_division:
  "nt \<le> rnd fl acc \<Longrightarrow>
   sample_while fl iv prev cur acc 0 wps nt idx = Some (Inl ZeroDivisionError)"
  by (subst sample_while.simps) simp

lemma sample_inv_step:
  assumes "sample_inv fl iv b wps nt idx" "nt \<le> b"
  shows "sample_inv fl iv b (wps @ [checkpoint fl prev cur f nt idx]) (nt + iv) (idx + 1)"
proof -
  from assms have idx: "1 \<le> idx" and nt: "nt = real idx * iv"
    and len: "length wps = idx - 1" and lo: "nt - iv \<le> b"
    and old: "\<forall>j < length wps.
        mile (wps ! j) = rnd fl (py_round (real (j + 1) * iv) 1) \<and>
        label (wps ! j) = Checkpoint (j + 1) (round_half_even (real (j + 1) * iv))"
    unfolding sample_inv_def by auto
  let ?w = "wps @ [checkpoint fl prev cur f nt idx]"
  have new: "mile (?w ! j) = rnd fl (py_round (real (j + 1) * iv) 1) \<and>
        label (?w ! j) = Checkpoint (j + 1) (round_half_even (real (j + 1) * iv))"
    if "j < length ?w" for j
  proof (cases "j < length wps")
    case True
    then show ?thesis using old by (simp add: nth_append)
  next
    case False
    with that have j: "j = length wps" by simp
    then have "j + 1 = idx" using len idx by simp
    then show ?thesis
      using j nt by (simp add: nth_append checkpoint_def Let_def)
  qed
  have "nt + iv = real (idx + 1) * iv"
    using nt by (simp add: algebra_simps)
  moreover have "length ?w = idx + 1 - 1"
    using len idx by simp
  ultimately show ?thesis
    unfolding sample_inv_def using new assms(2) by simp
qed

lemma sample_inv_bound_mono:
  "sample_inv fl iv b wps nt idx \<Longrightarrow> b \<le> b' \<Longrightarrow> sample_inv fl iv b' wps nt idx"
  unfolding sample_inv_def by auto

lemma exact_target_step:
  assumes "exact_targets fl iv B" "sample_inv fl iv B wps nt idx" "nt \<le> B"
  shows "rnd fl (nt + iv) = nt + iv"
  using assms unfolding exact_targets_def sample_inv_def by auto

lemma sample_while_terminates:
  assumes "float_ok fl" "0 < iv" "rnd fl acc = acc" "exact_targets fl iv (rnd fl (acc + seg))"
    and "acc < nt" "sample_inv fl iv (rnd fl (acc + seg)) wps nt idx"
  shows "\<exists>wps' nt' idx'.
           sample_while fl iv prev cur acc seg wps nt idx = Some (Inr (wps', nt', idx')) \<and>
           sample_inv fl iv (rnd fl (acc + seg)) wps' nt' idx' \<and> rnd fl (acc + seg) < nt'"
  using assms(5,6)
proof (induction "nat \<lfloor>(rnd fl (acc + seg) - nt) / iv + 1\<rfloor>" arbitrary: wps nt idx rule: less_induct)
  case less
  let ?B = "rnd fl (acc + seg)"
  show ?case
  proof (cases "nt \<le> ?B")
    case False
    then show ?thesis
      using less.prems by (simp add: sample_while_exit)
  next
    case True
    have seg: "seg \<noteq> 0"
    proof
      assume "seg = 0"
      with True assms(3) less.prems(1) show False by simp
    qed
    let ?wps = "wps @ [checkpoint fl prev cur (rnd fl (rnd fl (nt - acc) / seg)) nt idx]"
    have ex: "rnd fl (nt + iv) = nt + iv"
      using exact_target_step [OF assms(4) less.prems(2) True] .
    have d: "(?B - (nt + iv)) / iv + 1 = (?B - nt) / iv"
      using assms(2) by (simp add: field_simps)
    have nn: "0 \<le> (?B - nt) / iv"
      using True assms(2) by simp
    have m: "nat \<lfloor>(?B - (nt + iv)) / iv + 1\<rfloor> < nat \<lfloor>(?B - nt) / iv + 1\<rfloor>"
      unfolding d using nn by (simp add: nat_less_iff)
    have lt: "acc < nt + iv"
      using less.prems(1) assms(2) by simp
    have "\<exists>wps' nt' idx'.
           sample_while fl iv prev cur acc seg ?wps (nt + iv) (idx + 1) = Some (Inr (wps', nt', idx')) \<and>
           sample_inv fl iv ?B wps' nt' idx' \<and> ?B < nt'"
      using less.hyps [OF m lt sample_inv_step [OF less.prems(2) True]] .
    then show ?thesis
      using sample_while_step [OF True seg, of iv prev cur wps idx] ex by simp
  qed
qed

lemma accumulate_ge:
  assumes "float_ok fl"
  shows "rnd fl acc = acc \<Longrightarrow> accumulate fl acc (segment_lengths fl (p # rest)) = Inr A \<Longrightarrow>
         acc \<le> A \<and> rnd fl A = A"
proof (induction rest arbitrary: p acc)
  case Nil
  then show ?case by simp
next
  case (Cons q rest)
  from Cons.prems(2) obtain seg where
    h: "haversine_mi fl (fst p) (snd p) (fst q) (snd q) = Inr seg"
    and r: "accumulate fl (rnd fl (acc + seg)) (segment_lengths fl (q # rest)) = Inr A"
    by (cases "haversine_mi fl (fst p) (snd p) (fst q) (snd q)") auto
  have "0 \<le> seg"
    using haversine_mi_nonneg [OF assms h] .
  then have "rnd fl acc \<le> rnd fl (acc + seg)"
    using assms by (intro rnd_mono) simp_all
  moreover have "rnd fl (acc + seg) \<le> A \<and> rnd fl A = A"
    using Cons.IH [OF _ r] assms by (simp add: rnd_idem)
  ultimately show ?case
    using Cons.prems(1) by simp
qed

lemma sample_for_terminates:
  assumes "float_ok fl" "0 < iv"
  shows "acc < nt \<Longrightarrow> rnd fl acc = acc \<Longrightarrow> sample_inv fl iv acc wps nt idx \<Longrightarrow>
         accumulate fl acc (segment_lengths fl (prev # rest)) = Inr A \<Longrightarrow>
         exact_targets fl iv A \<Longrightarrow>
         \<exists>wps' nt' idx'.
           sample_for fl iv prev rest acc wps nt idx = Some (Inr (wps', nt', idx')) \<and>
           sample_inv fl iv A wps' nt' idx' \<and> A < nt'"
proof (induction rest arbitrary: prev acc wps nt idx)
  case Nil
  then show ?case by simp
next
  case (Cons cur rest)
  from Cons.prems(4) obtain seg where
    h: "haversine_mi fl (fst prev) (snd prev) (fst cur) (snd cur) = Inr seg"
    and r: "accumulate fl (rnd fl (acc + seg)) (segment_lengths fl (cur # rest)) = Inr A"
    by (cases "haversine_mi fl (fst prev) (snd prev) (fst cur) (snd cur)") auto
  let ?B = "rnd fl (acc + seg)"
  have seg: "0 \<le> seg"
    using haversine_mi_nonneg [OF assms(1) h] .
  then have "rnd fl acc \<le> ?B"
    using assms(1) by (intro rnd_mono) simp_all
  then have le: "acc \<le> ?B"
    using Cons.prems(2) by simp
  have idem: "rnd fl ?B = ?B"
    using assms(1) by (simp add: rnd_idem)
  have BA: "?B \<le> A"
    using accumulate_ge [OF assms(1) idem r] by simp
  have inv: "sample_inv fl iv ?B wps nt idx"
    using Cons.prems(3) le by (rule sample_inv_bound_mono)
  have ex: "exact_targets fl iv ?B"
    using Cons.prems(5) BA by (rule exact_targets_mono)
  from sample_while_terminates [OF assms Cons.prems(2) ex Cons.prems(1) inv, of prev cur]
  obtain wps1 nt1 idx1 where
    w: "sample_while fl iv prev cur acc seg wps nt idx = Some (Inr (wps1, nt1, idx1))"
    and i: "sample_inv fl iv ?B wps1 nt1 idx1" and l: "?B < nt1"
    by blast
  from Cons.IH [OF l idem i r Cons.prems(5)]
  show ?case
    using w h by simp
qed

lemma sample_waypoints_result:
  assumes "float_ok fl" "0 < iv" "pts \<noteq> []"
    and "route_length fl pts = Inr A" "exact_targets fl iv A"
  shows "\<exists>cps. sample_waypoints fl pts iv total_mi =
                 Some (Inr (cps @ [destination fl (last pts) total_mi])) \<and>
               int (length cps) = \<lfloor>A / iv\<rfloor> \<and>
               (\<forall>j < length cps.
                  mile (cps ! j) = rnd fl (py_round (real (j + 1) * iv) 1) \<and>
                  label (cps ! j) = Checkpoint (j + 1) (round_half_even (real (j + 1) * iv)))"
proof -
  from assms(3) obtain c0 rest where pts: "pts = c0 # rest"
    by (cases pts) auto
  have z: "rnd fl 0 = 0"
    using assms(1) by (rule rnd_zero)
  have "sample_inv fl iv 0 [] iv 1"
    by (simp add: sample_inv_def)
  from sample_for_terminates [OF assms(1,2) assms(2) z this _ assms(5), of c0 rest]
  obtain cps nt idx where
    f: "sample_for fl iv c0 rest 0 [] iv 1 = Some (Inr (cps, nt, idx))"
    and i: "sample_inv fl iv A cps nt idx"
    and l: "A < nt"
    using assms(4) by (auto simp: route_length_def pts)
  from i have idx: "1 \<le> idx" "nt = real idx * iv" "length cps = idx - 1" "nt - iv \<le> A"
    by (simp_all add: sample_inv_def)
  have "real (idx - 1) * iv \<le> A" "A < (real (idx - 1) + 1) * iv"
    using idx l by (simp_all add: algebra_simps of_nat_diff)
  then have "real (idx - 1) \<le> A / iv" "A / iv < real (idx - 1) + 1"
    using assms(2) by (simp_all add: field_simps)
  then have "\<lfloor>A / iv\<rfloor> = int (idx - 1)"
    by (simp add: floor_eq_iff)
  then show ?thesis
    using f i idx(3) by (auto simp: sample_waypoints_def pts sample_inv_def)
qed

subsection \<open>The sampled waypoints lie on the route\<close>

lemma pos_inv_step:
  assumes "sample_inv fl iv b wps nt idx" "pos_inv Q iv wps"
    and "Q nt (interpolate_point fl (fst prev) (snd prev) (fst cur) (snd cur) f)"
  shows "pos_inv Q iv (wps @ [checkpoint fl prev cur f nt idx])"
proof -
  from assms(1) have idx: "1 \<le> idx" and nt: "nt = real idx * iv"
    and len: "length wps = idx - 1"
    unfolding sample_inv_def by auto
  let ?w = "wps @ [checkpoint fl prev cur f nt idx]"
  have "Q (real (j + 1) * iv) (lon (?w ! j), lat (?w ! j))" if "j < length ?w" for j
  proof (cases "j < length wps")
    case True
    then show ?thesis using assms(2) by (simp add: nth_append pos_inv_def)
  next
    case False
    with that have j: "j = length wps" by simp
    then have "j + 1 = idx" using len idx by simp
    then have "real (j + 1) * iv = nt" using nt by simp
    then show ?thesis
      using j assms(3) by (simp add: nth_append checkpoint_def Let_def)
  qed
  then show ?thesis
    unfolding pos_inv_def by blast
qed

lemma sample_while_positions:
  assumes "float_ok fl" "0 < iv" "rnd fl acc = acc" "exact_targets fl iv (rnd fl (acc + seg))"
    and "\<forall>d. acc < d \<and> d \<le> rnd fl (acc + seg) \<longrightarrow>
           Q d (interpolate_point fl (fst prev) (snd prev) (fst cur) (snd cur)
                  (rnd fl (rnd fl (d - acc) / seg)))"
    and "acc < nt" "sample_inv fl iv (rnd fl (acc + seg)) wps nt idx" "pos_inv Q iv wps"
    and "sample_while fl iv prev cur acc seg wps nt idx = Some (Inr (wps', nt', idx'))"
  shows "pos_inv Q iv wps'"
  using assms(6-9)
proof (induction "nat \<lfloor>(rnd fl (acc + seg) - nt) / iv + 1\<rfloor>" arbitrary: wps nt idx rule: less_induct)
  case less
  let ?B = "rnd fl (acc + seg)"
  show ?case
  proof (cases "nt \<le> ?B")
    case False
    then have "sample_while fl iv prev cur acc seg wps nt idx = Some (Inr (wps, nt, idx))"
      by (rule sample_while_exit)
    with less.prems show ?thesis by simp
  next
    case True
    have seg: "seg \<noteq> 0"
    proof
      assume "seg = 0"
      with True assms(3) less.prems(1) show False by simp
    qed
    let ?f = "rnd fl (rnd fl (nt - acc) / seg)"
    let ?wps = "wps @ [checkpoint fl prev cur ?f nt idx]"
    have ex: "rnd fl (nt + iv) = nt + iv"
      using exact_target_step [OF assms(4) less.prems(2) True] .
    have d: "(?B - (nt + iv)) / iv + 1 = (?B - nt) / iv"
      using assms(2) by (simp add: field_simps)
    have nn: "0 \<le> (?B - nt) / iv"
      using True assms(2) by simp
    have m: "nat \<lfloor>(?B - (nt + iv)) / iv + 1\<rfloor> < nat \<lfloor>(?B - nt) / iv + 1\<rfloor>"
      unfolding d using nn by (simp add: nat_less_iff)
    have lt: "acc < nt + iv"
      using less.prems(1) assms(2) by simp
    have q: "Q nt (interpolate_point fl (fst prev) (snd prev) (fst cur) (snd cur) ?f)"
      using assms(5) less.prems(1) True by blast
    have r: "sample_while fl iv prev cur acc seg ?wps (nt + iv) (idx + 1) =
             Some (Inr (wps', nt', idx'))"
      using less.prems(4) sample_while_step [OF True seg, of iv prev cur wps idx] ex by simp
    show ?thesis
      using less.hyps [OF m lt sample_inv_step [OF less.prems(2) True]
          pos_inv_step [OF less.prems(2,3) q] r] .
  qed
qed

lemma sample_for_positions:
  assumes "float_ok fl" "0 < iv"
  shows "acc < nt \<Longrightarrow> rnd fl acc = acc \<Longrightarrow> sample_inv fl iv acc wps nt idx \<Longrightarrow>
         pos_inv Q iv wps \<Longrightarrow>
         \<forall>d p. acc < d \<and> point_at fl prev rest acc d = Some p \<longrightarrow> Q d p \<Longrightarrow>
         accumulate fl acc (segment_lengths fl (prev # rest)) = Inr A \<Longrightarrow>
         exact_targets fl iv A \<Longrightarrow>
         sample_for fl iv prev rest acc wps nt idx = Some (Inr (wps', nt', idx')) \<Longrightarrow>
         pos_inv Q iv wps'"
proof (induction rest arbitrary: prev acc wps nt idx)
  case Nil
  then show ?case by simp
next
  case (Cons cur rest)
  from Cons.prems(6) obtain seg where
    h: "haversine_mi fl (fst prev) (snd prev) (fst cur) (snd cur) = Inr seg"
    and r: "accumulate fl (rnd fl (acc + seg)) (segment_lengths fl (cur # rest)) = Inr A"
    by (cases "haversine_mi fl (fst prev) (snd prev) (fst cur) (snd cur)") auto
  let ?B = "rnd fl (acc + seg)"
  have seg: "0 \<le> seg"
    using haversine_mi_nonneg [OF assms(1) h] .
  then have "rnd fl acc \<le> ?B"
    using assms(1) by (intro rnd_mono) simp_all
  then have le: "acc \<le> ?B"
    using Cons.prems(2) by simp
  have idem: "rnd fl ?B = ?B"
    using assms(1) by (simp add: rnd_idem)
  have BA: "?B \<le> A"
    using accumulate_ge [OF assms(1) idem r] by simp
  have inv: "sample_inv fl iv ?B wps nt idx"
    using Cons.prems(3) le by (rule sample_inv_bound_mono)
  have ex: "exact_targets fl iv ?B"
    using Cons.prems(7) BA by (rule exact_targets_mono)
  from sample_while_terminates [OF assms Cons.prems(2) ex Cons.prems(1) inv, of prev cur]
  obtain wps1 nt1 idx1 where
    w: "sample_while fl iv prev cur acc seg wps nt idx = Some (Inr (wps1, nt1, idx1))"
    and i: "sample_inv fl iv ?B wps1 nt1 idx1" and l: "?B < nt1"
    by blast
  have here: "\<forall>d. acc < d \<and> d \<le> ?B \<longrightarrow>
           Q d (interpolate_point fl (fst prev) (snd prev) (fst cur) (snd cur)
                  (rnd fl (rnd fl (d - acc) / seg)))"
  proof (intro allI impI)
    fix d assume a: "acc < d \<and> d \<le> ?B"
    then have "point_at fl prev (cur # rest) acc d =
        Some (interpolate_point fl (fst prev) (snd prev) (fst cur) (snd cur)
                (rnd fl (rnd fl (d - acc) / seg)))"
      by (simp add: h)
    with a Cons.prems(5)
    show "Q d (interpolate_point fl (fst prev) (snd prev) (fst cur) (snd cur)
                 (rnd fl (rnd fl (d - acc) / seg)))"
      by blast
  qed
  have p1: "pos_inv Q iv wps1"
    using sample_while_positions
      [OF assms Cons.prems(2) ex here Cons.prems(1) inv Cons.prems(4) w] .
  have later: "\<forall>d p. ?B < d \<and> point_at fl cur rest ?B d = Some p \<longrightarrow> Q d p"
  proof (intro allI impI)
    fix d p assume a: "?B < d \<and> point_at fl cur rest ?B d = Some p"
    then have "acc < d" using le by linarith
    moreover have "point_at fl prev (cur # rest) acc d = Some p"
      using a by (simp add: h)
    ultimately show "Q d p" using Cons.prems(5) by blast
  qed
  have f: "sample_for fl iv cur rest ?B wps1 nt1 idx1 = Some (Inr (wps', nt', idx'))"
    using Cons.prems(8) w by (simp add: h)
  show ?case
    using Cons.IH [OF l idem i p1 later r Cons.prems(7) f] .
qed

lemma sample_waypoints_positions:
  assumes "float_ok fl" "0 < iv"
    and "route_length fl (c0 # rest) = Inr A" "exact_targets fl iv A"
    and "sample_waypoints fl (c0 # rest) iv total_mi = Some (Inr (cps @ [d]))"
    and "j < length cps"
  shows "point_at fl c0 rest 0 (real (j + 1) * iv) = Some (lon (cps ! j), lat (cps ! j))"
proof -
  from assms(5) obtain nt idx where
    f: "sample_for fl iv c0 rest 0 [] iv 1 = Some (Inr (cps, nt, idx))"
    by (auto simp: sample_waypoints_def split: option.splits sum.splits)
  have z: "rnd fl 0 = 0"
    using assms(1) by (rule rnd_zero)
  have i: "sample_inv fl iv 0 [] iv 1"
    by (simp add: sample_inv_def)
  have p: "pos_inv (\<lambda>d p. point_at fl c0 rest 0 d = Some p) iv []"
    by (simp add: pos_inv_def)
  have a: "accumulate fl 0 (segment_lengths fl (c0 # rest)) = Inr A"
    using assms(3) by (simp add: route_length_def)
  have "pos_inv (\<lambda>d p. point_at fl c0 rest 0 d = Some p) iv cps"
    using sample_for_positions [OF assms(1,2) assms(2) z i p _ a assms(4) f] by blast
  with assms(6) show ?thesis
    by (simp add: pos_inv_def)
qed

subsection \<open>The division is never reached with a zero length\<close>

lemma haversine_mi_raises: "haversine_mi fl lon1 lat1 lon2 lat2 = Inl e \<Longrightarrow> e = ValueError"
  by (auto simp: haversine_mi_def Let_def split: if_splits)

lemma sample_while_post:
  assumes "sample_while fl iv prev cur acc seg wps nt idx = Some y"
  shows "(seg \<noteq> 0 \<longrightarrow> (\<exists>r. y = Inr r)) \<and>
         (\<forall>wps' nt' idx'. y = Inr (wps', nt', idx') \<longrightarrow> rnd fl (acc + seg) < nt')"
  using assms
proof (induction fl iv prev cur acc seg wps nt idx y
    rule: sample_while.raw_induct [rotated 1, consumes 1])
  case (1 sample_while fl iv prev cur acc seg wps nt idx y)
  show ?case
  proof (cases "nt \<le> rnd fl (acc + seg)")
    case False
    with 1(2) show ?thesis by auto
  next
    case True
    show ?thesis
    proof (cases "seg = 0")
      case True
      with \<open>nt \<le> rnd fl (acc + seg)\<close> 1(2) show ?thesis by auto
    next
      case False
      with True 1(2) have
        "sample_while fl iv prev cur acc seg
           (wps @ [checkpoint fl prev cur (rnd fl (rnd fl (nt - acc) / seg)) nt idx])
           (rnd fl (nt + iv)) (idx + 1) = Some y"
        by simp
      from 1(1) [OF this] show ?thesis .
    qed
  qed
qed

lemma sample_while_zero_seg:
  "acc < nt \<Longrightarrow> rnd fl acc = acc \<Longrightarrow>
   sample_while fl iv prev cur acc 0 wps nt idx = Some (Inr (wps, nt, idx))"
  by (intro sample_while_exit) simp

lemma sample_while_safe:
  assumes "acc < nt" "rnd fl acc = acc"
  shows "sample_while fl iv prev cur acc seg wps nt idx \<noteq> Some (Inl e)"
proof (cases "seg = 0")
  case True
  then show ?thesis
    using sample_while_zero_seg [OF assms, of iv prev cur wps idx] by simp
next
  case False
  then show ?thesis
    using sample_while_post [of fl iv prev cur acc seg wps nt idx "Inl e"] by auto
qed

lemma sample_for_safe:
  assumes "float_ok fl"
  shows "acc < nt \<Longrightarrow> rnd fl acc = acc \<Longrightarrow>
         sample_for fl iv prev rest acc wps nt idx \<noteq> Some (Inl ZeroDivisionError)"
proof (induction rest arbitrary: prev acc wps nt idx)
  case Nil
  then show ?case by simp
next
  case (Cons cur rest)
  show ?case
  proof (cases "haversine_mi fl (fst prev) (snd prev) (fst cur) (snd cur)")
    case (Inl e)
    then show ?thesis
      using haversine_mi_raises [OF Inl] by simp
  next
    case (Inr seg)
    show ?thesis
    proof (cases "sample_while fl iv prev cur acc seg wps nt idx")
      case None
      then show ?thesis using Inr by simp
    next
      case (Some y)
      show ?thesis
      proof (cases y)
        case (Inl e)
        with Some sample_while_safe [OF Cons.prems, of iv prev cur seg wps idx e]
        show ?thesis by simp
      next
        case (Inr r)
        obtain wps1 nt1 idx1 where r: "r = (wps1, nt1, idx1)"
          by (cases r) auto
        have l: "rnd fl (acc + seg) < nt1"
          using sample_while_post [OF Some] Inr r by simp
        have i: "rnd fl (rnd fl (acc + seg)) = rnd fl (acc + seg)"
          using assms by (rule rnd_idem)
        show ?thesis
          using Cons.IH [OF l i, of cur wps1 idx1] Some Inr r
            \<open>haversine_mi fl (fst prev) (snd prev) (fst cur) (snd cur) = Inr seg\<close>
          by simp
      qed
    qed
  qed
qed

lemma sample_waypoints_safe:
  assumes "float_ok fl" "0 < iv"
  shows "sample_waypoints fl pts iv total_mi \<noteq> Some (Inl ZeroDivisionError)"
proof (cases pts)
  case Nil
  then show ?thesis by (simp add: sample_waypoints_def)
next
  case (Cons c0 rest)
  have "sample_for fl iv c0 rest 0 [] iv 1 \<noteq> Some (Inl ZeroDivisionError)"
    using assms by (intro sample_for_safe) (simp_all add: rnd_zero)
  then show ?thesis
    by (auto simp: sample_waypoints_def Cons split: option.splits sum.splits)
qed

lemma sample_for_zero_route:
  assumes "float_ok fl" "0 < nt"
  shows "\<forall>d \<in> set (segment_lengths fl (prev # rest)). d = Inr 0 \<Longrightarrow>
         sample_for fl iv prev rest 0 wps nt idx = Some (Inr (wps, nt, idx))"
proof (induction rest arbitrary: prev)
  case Nil
  then show ?case by simp
next
  case (Cons cur rest)
  have z: "rnd fl 0 = 0"
    using assms(1) by (rule rnd_zero)
  from Cons.prems have h: "haversine_mi fl (fst prev) (snd prev) (fst cur) (snd cur) = Inr 0"
    and r: "\<forall>d \<in> set (segment_lengths fl (cur # rest)). d = Inr 0"
    by simp_all
  have w: "sample_while fl iv prev cur 0 0 wps nt idx = Some (Inr (wps, nt, idx))"
    using assms(2) z by (intro sample_while_zero_seg) simp_all
  show ?case
    using Cons.IH [OF r] h w z by simp
qed

lemma sample_waypoints_zero_route:
  assumes "float_ok fl" "0 < iv" "pts \<noteq> []"
    and "\<forall>d \<in> set (segment_lengths fl pts). d = Inr 0"
  shows "sample_waypoints fl pts iv total_mi = Some (Inr [destination fl (last pts) total_mi])"
proof -
  from assms(3) obtain c0 rest where pts: "pts = c0 # rest"
    by (cases pts) auto
  have "sample_for fl iv c0 rest 0 [] iv 1 = Some (Inr ([], iv, 1))"
    using assms(1,2) assms(4) [unfolded pts] by (rule sample_for_zero_route)
  then show ?thesis
    by (simp add: sample_waypoints_def pts)
qed

subsection \<open>Exact arithmetic never raises\<close>

lemma accumulate_exact_total:
  "\<exists>A. accumulate exact_fl acc (segment_lengths exact_fl (p # rest)) = Inr A"
  by (induction rest arbitrary: p acc) (simp_all add: haversine_mi_exact)

lemma route_length_exact_total: "\<exists>A. route_length exact_fl pts = Inr A"
  using accumulate_exact_total [of 0 "hd pts" "tl pts"]
  by (cases pts) (simp_all add: route_length_def)

subsection \<open>Non-positive interval\<close>

lemma sample_while_no_result:
  assumes "sample_while fl iv prev cur acc seg wps nt idx = Some y"
  shows "\<not> (float_ok fl \<and> iv \<le> 0 \<and> nt \<le> rnd fl (acc + seg) \<and> seg \<noteq> 0)"
  using assms
proof (induction fl iv prev cur acc seg wps nt idx y
    rule: sample_while.raw_induct [rotated 1, consumes 1])
  case (1 sample_while fl iv prev cur acc seg wps nt idx y)
  show ?case
  proof
    assume a: "float_ok fl \<and> iv \<le> 0 \<and> nt \<le> rnd fl (acc + seg) \<and> seg \<noteq> 0"
    with 1(2) have r:
      "sample_while fl iv prev cur acc seg
         (wps @ [checkpoint fl prev cur (rnd fl (rnd fl (nt - acc) / seg)) nt idx])
         (rnd fl (nt + iv)) (idx + 1) = Some y"
      by simp
    from a have "nt + iv \<le> rnd fl (acc + seg)" by simp
    then have "rnd fl (nt + iv) \<le> rnd fl (rnd fl (acc + seg))"
      using a by (intro rnd_mono) simp_all
    then have "rnd fl (nt + iv) \<le> rnd fl (acc + seg)"
      using a by (simp add: rnd_idem)
    with 1(1) [OF r] a show False by simp
  qed
qed

lemma sample_while_diverges:
  "float_ok fl \<Longrightarrow> iv \<le> 0 \<Longrightarrow> nt \<le> rnd fl (acc + seg) \<Longrightarrow> seg \<noteq> 0 \<Longrightarrow>
   sample_while fl iv prev cur acc seg wps nt idx = None"
  using sample_while_no_result [of fl iv prev cur acc seg wps nt idx]
  by (cases "sample_while fl iv prev cur acc seg wps nt idx") auto

lemma sample_waypoints_diverges:
  assumes "float_ok fl" "iv \<le> 0"
    and "haversine_mi fl (fst p) (snd p) (fst q) (snd q) = Inr seg" "0 < seg"
  shows "sample_waypoints fl (p # q # rest) iv total_mi = None"
proof -
  have "0 \<le> rnd fl (0 + seg)"
    using assms(1,4) by (intro rnd_nonneg) simp_all
  then have "sample_while fl iv p q 0 seg [] iv 1 = None"
    using assms by (intro sample_while_diverges) simp_all
  then show ?thesis
    using assms(3) by (simp add: sample_waypoints_def)
qed

lemma sample_waypoints_zero_division:
  assumes "float_ok fl" "iv \<le> 0" "haversine_mi fl (fst p) (snd p) (fst q) (snd q) = Inr 0"
  shows "sample_waypoints fl (p # q # rest) iv total_mi = Some (Inl ZeroDivisionError)"
  using assms sample_while_zero_division [of iv fl 0 iv p q "[]" 1]
  by (simp add: sample_waypoints_def rnd_zero)

subsection \<open>A route of one degree along the equator\<close>

lemma py_round_examples:
  "py_round 50 1 = 50" "py_round 49.94 1 = 49.9" "py_round 100 1 = 100"
  "round_half_even 50 = 50" "round_half_even 100 = 100"
  by (simp_all add: py_round_def round_half_even_def)

lemma rnd_exact [simp]: "rnd exact_fl x = x"
  by (simp add: exact_fl_def)

lemma sample_equator_degree:
  shows "sample_waypoints exact_fl [(0, 0), (1, 0)] 50 total_mi =
         Some (Inr [checkpoint exact_fl (0, 0) (1, 0) (50 / (3958.8 * pi / 180)) 50 1,
                    destination exact_fl (1, 0) total_mi])"
proof -
  define seg :: real where "seg = 3958.8 * pi / 180"
  have b: "50 \<le> seg" "seg \<noteq> 0" "\<not> 100 \<le> seg"
    using equator_degree_bounds by (simp_all add: seg_def)
  have "sample_while exact_fl 50 (0, 0) (1, 0) 0 seg [] 50 1 =
        sample_while exact_fl 50 (0, 0) (1, 0) 0 seg
          [checkpoint exact_fl (0, 0) (1, 0) (50 / seg) 50 1] 100 2"
    using sample_while_step [of 50 exact_fl 0 seg 50 "(0, 0)" "(1, 0)" "[]" 1] b
    by (simp add: numeral_2_eq_2)
  also have "\<dots> = Some (Inr ([checkpoint exact_fl (0, 0) (1, 0) (50 / seg) 50 1], 100, 2))"
    using b by (intro sample_while_exit) simp
  finally show ?thesis
    using haversine_mi_equator_degree
    by (simp add: sample_waypoints_def seg_def)
qed

lemma route_length_equator_degree:
  "route_length exact_fl [(0, 0), (1, 0)] = Inr (3958.8 * pi / 180)"
  using haversine_mi_equator_degree by (simp add: route_length_def)

lemma floor_equator_degree: "\<lfloor>3958.8 * pi / 180 / 50\<rfloor> = (1::int)"
  using equator_degree_bounds by (simp add: floor_eq_iff)

lemma sorted_checkpoint_miles:
  assumes "float_ok fl" "0 < iv"
    and "\<forall>j < length cps. mile (cps ! j) = rnd fl (py_round (real (j + 1) * iv) 1) \<and> Q j"
  shows "sorted (map mile cps)"
proof -
  have "mile (cps ! i) \<le> mile (cps ! j)" if "i \<le> j" "j < length cps" for i j
  proof -
    have "real (i + 1) * iv \<le> real (j + 1) * iv"
      using that assms(2) by simp
    then have "py_round (real (i + 1) * iv) 1 \<le> py_round (real (j + 1) * iv) 1"
      by (rule py_round_mono)
    then show ?thesis
      using that assms(1,3) by (simp add: rnd_mono)
  qed
  then show ?thesis
    by (simp add: sorted_iff_nth_mono)
qed

subsection \<open>Where a segment raises\<close>

lemma sample_for_raises:
  "accumulate fl acc (segment_lengths fl (prev # rest)) = Inl e \<Longrightarrow>
   sample_for fl iv prev rest acc wps nt idx \<noteq> Some (Inr r)"
proof (induction rest arbitrary: prev acc wps nt idx)
  case Nil
  then show ?case by simp
next
  case (Cons cur rest)
  show ?case
  proof (cases "haversine_mi fl (fst prev) (snd prev) (fst cur) (snd cur)")
    case (Inl e')
    then show ?thesis by simp
  next
    case (Inr seg)
    with Cons.prems have
      a: "accumulate fl (rnd fl (acc + seg)) (segment_lengths fl (cur # rest)) = Inl e"
      by simp
    show ?thesis
      using Cons.IH [OF a] Inr by (auto split: option.splits sum.splits)
  qed
qed

lemma sample_waypoints_raises:
  assumes "route_length fl pts = Inl e"
  shows "sample_waypoints fl pts iv total_mi \<noteq> Some (Inr wps)"
proof (cases pts)
  case Nil
  then show ?thesis by (simp add: sample_waypoints_def)
next
  case (Cons c0 rest)
  with assms have "accumulate fl 0 (segment_lengths fl (c0 # rest)) = Inl e"
    by (simp add: route_length_def)
  from sample_for_raises [OF this]
  show ?thesis
    by (auto simp: sample_waypoints_def Cons split: option.splits sum.splits)
qed

subsection \<open>Claims about the sampler\<close>

text \<open>
  C2, as the code has it. The number of interval waypoints is the floor of the length
  that the sampler itself accumulates over the geometry, in its own float arithmetic,
  over the interval; not of the argument \<open>total_dist_mi\<close> over the interval. For every
  float arithmetic that rounds monotonically, every non-empty geometry on which the
  great-circle distance does not raise (\<open>route_length\<close> is the accumulated length \<open>A\<close>) and
  every positive interval whose multiples up to \<open>A\<close> are added without rounding, the
  sampler returns; its result is the interval waypoints followed by exactly one
  destination waypoint; there are \<open>floor (A / interval_mi)\<close> interval waypoints; the \<open>j\<close>-th
  (from 0) is the point that the sampler's interpolation gives at distance
  \<open>(j + 1) * interval_mi\<close> from the start of the route, a distance that it stores rounded
  to one decimal, and these distances increase strictly. Where a segment raises, the
  sampler returns no waypoints (lemma \<open>sample_waypoints_raises\<close>).
\<close>

theorem sampler_count_by_route_length:
  assumes "float_ok fl" and "0 < interval_mi" and "pts \<noteq> []"
    and "route_length fl pts = Inr A" and "exact_targets fl interval_mi A"
  shows "\<exists>cps. sample_waypoints fl pts interval_mi total_dist_mi =
                 Some (Inr (cps @ [destination fl (last pts) total_dist_mi])) \<and>
               int (length cps) = \<lfloor>A / interval_mi\<rfloor> \<and>
               (\<forall>j < length cps.
                  mile (cps ! j) = rnd fl (py_round (real (j + 1) * interval_mi) 1) \<and>
                  label (cps ! j) =
                    Checkpoint (j + 1) (round_half_even (real (j + 1) * interval_mi)) \<and>
                  point_at fl (hd pts) (tl pts) 0 (real (j + 1) * interval_mi) =
                    Some (lon (cps ! j), lat (cps ! j)) \<and>
                  (\<forall>i < j. real (i + 1) * interval_mi < real (j + 1) * interval_mi))"
proof -
  from sample_waypoints_result [OF assms, of total_dist_mi]
  obtain cps where
    r: "sample_waypoints fl pts interval_mi total_dist_mi =
          Some (Inr (cps @ [destination fl (last pts) total_dist_mi]))"
    and n: "int (length cps) = \<lfloor>A / interval_mi\<rfloor>"
    and f: "\<forall>j < length cps.
              mile (cps ! j) = rnd fl (py_round (real (j + 1) * interval_mi) 1) \<and>
              label (cps ! j) = Checkpoint (j + 1) (round_half_even (real (j + 1) * interval_mi))"
    by blast
  have "real (i + 1) * interval_mi < real (j + 1) * interval_mi" if "i < j" for i j :: nat
    using that assms(2) by simp
  moreover have "point_at fl (hd pts) (tl pts) 0 (real (j + 1) * interval_mi) =
      Some (lon (cps ! j), lat (cps ! j))" if "j < length cps" for j
  proof -
    from assms(3) have p: "pts = hd pts # tl pts" by simp
    with r have s: "sample_waypoints fl (hd pts # tl pts) interval_mi total_dist_mi =
        Some (Inr (cps @ [destination fl (last pts) total_dist_mi]))"
      by simp
    from assms(4) p have l: "route_length fl (hd pts # tl pts) = Inr A"
      by simp
    from sample_waypoints_positions [OF assms(1,2) l assms(5) s that] show ?thesis .
  qed
  ultimately show ?thesis
    using r n f by blast
qed

text \<open>
  The theorem in exact arithmetic at a route of one degree along the equator, about
  69.09 miles, sampled every 50 miles.
\<close>

theorem sampler_count_by_route_length_witness:
  "float_ok exact_fl \<and> (0::real) < 50 \<and> [(0, 0), (1, 0)] \<noteq> ([] :: (real \<times> real) list) \<and>
   route_length exact_fl [(0, 0), (1, 0)] = Inr (3958.8 * pi / 180) \<and>
   exact_targets exact_fl 50 (3958.8 * pi / 180) \<and>
   (\<exists>cps. sample_waypoints exact_fl [(0, 0), (1, 0)] 50 100 =
            Some (Inr (cps @ [destination exact_fl (1, 0) 100])) \<and>
          int (length cps) = 1)"
proof -
  have p: "(0::real) < 50" and ne: "[(0, 0), (1, 0)] \<noteq> ([] :: (real \<times> real) list)"
    and l: "last [(0, 0), (1, 0)] = ((1, 0) :: real \<times> real)"
    by simp_all
  have "\<exists>cps. sample_waypoints exact_fl [(0, 0), (1, 0)] 50 100 =
            Some (Inr (cps @ [destination exact_fl (last [(0, 0), (1, 0)]) 100])) \<and>
          int (length cps) = \<lfloor>3958.8 * pi / 180 / 50\<rfloor>"
    using sampler_count_by_route_length
      [OF float_ok_exact p ne route_length_equator_degree exact_targets_exact, of 100]
    by blast
  then have "\<exists>cps. sample_waypoints exact_fl [(0, 0), (1, 0)] 50 100 =
            Some (Inr (cps @ [destination exact_fl (1, 0) 100])) \<and>
          int (length cps) = 1"
    by (simp only: floor_equator_degree l)
  then show ?thesis
    using float_ok_exact route_length_equator_degree exact_targets_exact [of 50 "3958.8 * pi / 180"]
    by simp
qed

text \<open>
  C2 as stated fails: the geometry is about 69 miles long, the routing service reports
  100 miles, and the sampler emits one interval waypoint where \<open>floor(100 / 50) = 2\<close>.
\<close>

theorem sampler_count_counterexample:
  "sample_waypoints exact_fl [(0, 0), (1, 0)] 50 100 =
     Some (Inr [checkpoint exact_fl (0, 0) (1, 0) (50 / (3958.8 * pi / 180)) 50 1,
                destination exact_fl (1, 0) 100]) \<and>
   \<lfloor>(100::real) / 50\<rfloor> = 2"
  using sample_equator_degree [of 100] by simp

text \<open>
  C4, as the code has it, under the conditions of C2. The stored distances of the
  interval waypoints are non-decreasing; the destination stores \<open>total_dist_mi\<close> rounded
  to one decimal; the whole sequence is non-decreasing exactly when there is no interval
  waypoint or the stored distance of the last one, \<open>floor (A / interval_mi) * interval_mi\<close>
  rounded to one decimal, is at most the stored distance of the destination; and this
  is so whenever \<open>total_dist_mi\<close> is at least \<open>floor (A / interval_mi) * interval_mi\<close>.
\<close>

theorem sampler_miles_nondecreasing:
  assumes "float_ok fl" and "0 < interval_mi" and "pts \<noteq> []"
    and "route_length fl pts = Inr A" and "exact_targets fl interval_mi A"
  shows "\<exists>cps d. sample_waypoints fl pts interval_mi total_dist_mi = Some (Inr (cps @ [d])) \<and>
                 int (length cps) = \<lfloor>A / interval_mi\<rfloor> \<and>
                 sorted (map mile cps) \<and>
                 mile d = rnd fl (py_round total_dist_mi 1) \<and>
                 (sorted (map mile (cps @ [d])) \<longleftrightarrow>
                    cps = [] \<or>
                    rnd fl (py_round (of_int \<lfloor>A / interval_mi\<rfloor> * interval_mi) 1) \<le>
                      rnd fl (py_round total_dist_mi 1)) \<and>
                 (of_int \<lfloor>A / interval_mi\<rfloor> * interval_mi \<le> total_dist_mi \<longrightarrow>
                    sorted (map mile (cps @ [d])))"
proof -
  from sample_waypoints_result [OF assms, of total_dist_mi]
  obtain cps where
    r: "sample_waypoints fl pts interval_mi total_dist_mi =
          Some (Inr (cps @ [destination fl (last pts) total_dist_mi]))"
    and n: "int (length cps) = \<lfloor>A / interval_mi\<rfloor>"
    and f: "\<forall>j < length cps.
              mile (cps ! j) = rnd fl (py_round (real (j + 1) * interval_mi) 1) \<and>
              label (cps ! j) = Checkpoint (j + 1) (round_half_even (real (j + 1) * interval_mi))"
    by blast
  let ?d = "destination fl (last pts) total_dist_mi"
  let ?top = "rnd fl (py_round (of_int \<lfloor>A / interval_mi\<rfloor> * interval_mi) 1)"
  have s: "sorted (map mile cps)"
    using assms(1,2) f by (rule sorted_checkpoint_miles)
  have m: "mile ?d = rnd fl (py_round total_dist_mi 1)"
    by (simp add: destination_def)
  have n': "real_of_int \<lfloor>A / interval_mi\<rfloor> = real (length cps)"
    using n [symmetric] by simp
  have lastm: "mile (last cps) = ?top" if "cps \<noteq> []"
  proof -
    from that have "last cps = cps ! (length cps - 1)" "length cps - 1 < length cps"
      "length cps - 1 + 1 = length cps"
      by (simp_all add: last_conv_nth)
    with f show ?thesis
      unfolding n' by metis
  qed
  have iff: "sorted (map mile (cps @ [?d])) \<longleftrightarrow> cps = [] \<or> ?top \<le> mile ?d"
  proof (cases "cps = []")
    case True
    then show ?thesis by simp
  next
    case False
    have "(\<forall>x \<in> set (map mile cps). x \<le> mile ?d) \<longleftrightarrow> mile (last cps) \<le> mile ?d"
    proof
      assume "\<forall>x \<in> set (map mile cps). x \<le> mile ?d"
      then show "mile (last cps) \<le> mile ?d"
        using False by simp
    next
      assume a: "mile (last cps) \<le> mile ?d"
      have "x \<le> last (map mile cps)" if "x \<in> set (map mile cps)" for x
      proof -
        from that obtain i where i: "i < length (map mile cps)" "x = map mile cps ! i"
          by (metis in_set_conv_nth)
        have "map mile cps ! i \<le> map mile cps ! (length (map mile cps) - 1)"
          using s i(1) by (intro sorted_nth_mono) simp_all
        then show ?thesis
          using i False by (simp add: last_conv_nth)
      qed
      then show "\<forall>x \<in> set (map mile cps). x \<le> mile ?d"
        using a False by (fastforce simp: last_map)
    qed
    then show ?thesis
      using s False lastm by (simp add: sorted_append)
  qed
  have suff: "sorted (map mile (cps @ [?d]))"
    if le: "of_int \<lfloor>A / interval_mi\<rfloor> * interval_mi \<le> total_dist_mi"
  proof -
    from le have "py_round (of_int \<lfloor>A / interval_mi\<rfloor> * interval_mi) 1 \<le> py_round total_dist_mi 1"
      by (rule py_round_mono)
    then have "?top \<le> mile ?d"
      unfolding m using assms(1) by (rule rnd_mono [rotated])
    with iff show ?thesis by simp
  qed
  have iff': "sorted (map mile (cps @ [?d])) \<longleftrightarrow>
      cps = [] \<or> ?top \<le> rnd fl (py_round total_dist_mi 1)"
    using iff m by simp
  from r n s m iff' suff show ?thesis
    by (intro exI [of _ cps] exI [of _ ?d]) blast
qed

text \<open>
  The theorem in exact arithmetic at the one-degree route with a reported total of 100
  miles.
\<close>

theorem sampler_miles_nondecreasing_witness:
  "float_ok exact_fl \<and> (0::real) < 50 \<and> [(0, 0), (1, 0)] \<noteq> ([] :: (real \<times> real) list) \<and>
   route_length exact_fl [(0, 0), (1, 0)] = Inr (3958.8 * pi / 180) \<and>
   exact_targets exact_fl 50 (3958.8 * pi / 180) \<and>
   of_int \<lfloor>3958.8 * pi / 180 / 50\<rfloor> * 50 \<le> (100::real) \<and>
   (\<exists>cps d. sample_waypoints exact_fl [(0, 0), (1, 0)] 50 100 = Some (Inr (cps @ [d])) \<and>
            int (length cps) = 1 \<and> mile d = 100 \<and> sorted (map mile (cps @ [d])))"
proof -
  have p: "(0::real) < 50" and ne: "[(0, 0), (1, 0)] \<noteq> ([] :: (real \<times> real) list)"
    by simp_all
  have le: "of_int \<lfloor>3958.8 * pi / 180 / 50\<rfloor> * 50 \<le> (100::real)"
    unfolding floor_equator_degree by simp
  have "\<exists>cps d. sample_waypoints exact_fl [(0, 0), (1, 0)] 50 100 = Some (Inr (cps @ [d])) \<and>
            int (length cps) = \<lfloor>3958.8 * pi / 180 / 50\<rfloor> \<and>
            mile d = rnd exact_fl (py_round 100 1) \<and> sorted (map mile (cps @ [d]))"
    using sampler_miles_nondecreasing
      [OF float_ok_exact p ne route_length_equator_degree exact_targets_exact, of 100] le
    by blast
  then have "\<exists>cps d. sample_waypoints exact_fl [(0, 0), (1, 0)] 50 100 = Some (Inr (cps @ [d])) \<and>
            int (length cps) = 1 \<and> mile d = 100 \<and> sorted (map mile (cps @ [d]))"
    by (simp only: floor_equator_degree py_round_examples rnd_exact)
  then show ?thesis
    using le float_ok_exact route_length_equator_degree
      exact_targets_exact [of 50 "3958.8 * pi / 180"]
    by simp
qed

text \<open>
  C4 as stated fails: with a reported total of 49.94 miles the stored distances are 50.0
  and then 49.9, a decreasing sequence whose last element is not the total.
\<close>

theorem sampler_miles_counterexample:
  "sample_waypoints exact_fl [(0, 0), (1, 0)] 50 49.94 =
     Some (Inr [checkpoint exact_fl (0, 0) (1, 0) (50 / (3958.8 * pi / 180)) 50 1,
                destination exact_fl (1, 0) 49.94]) \<and>
   mile (checkpoint exact_fl (0, 0) (1, 0) (50 / (3958.8 * pi / 180)) 50 1) = 50 \<and>
   mile (destination exact_fl (1, 0) 49.94) = 49.9 \<and>
   (49.9::real) < 50 \<and> (49.9::real) \<noteq> 49.94"
  using sample_equator_degree [of "49.94"]
  by (simp add: checkpoint_def destination_def py_round_def round_half_even_def Let_def)

text \<open>
  C7. For every float arithmetic that rounds monotonically, every geometry of at least
  two points and every positive interval, the sampler never raises \<open>ZeroDivisionError\<close>:
  the division by the segment length is never reached with a zero length. When every
  segment has length zero the result is the destination alone. The sampler returns
  waypoints whenever no segment raises and the targets are added without rounding; in
  exact arithmetic it returns waypoints on every geometry.
\<close>

theorem sampler_tolerates_zero_segments:
  assumes "float_ok fl" and "0 < interval_mi" and "2 \<le> length pts"
  shows "sample_waypoints fl pts interval_mi total_dist_mi \<noteq> Some (Inl ZeroDivisionError) \<and>
         ((\<forall>d \<in> set (segment_lengths fl pts). d = Inr 0) \<longrightarrow>
            sample_waypoints fl pts interval_mi total_dist_mi =
              Some (Inr [destination fl (last pts) total_dist_mi])) \<and>
         (\<forall>A. route_length fl pts = Inr A \<and> exact_targets fl interval_mi A \<longrightarrow>
            (\<exists>wps. sample_waypoints fl pts interval_mi total_dist_mi = Some (Inr wps))) \<and>
         (\<exists>wps. sample_waypoints exact_fl pts interval_mi total_dist_mi = Some (Inr wps))"
proof -
  from assms(3) have ne: "pts \<noteq> []" by auto
  have 1: "sample_waypoints fl pts interval_mi total_dist_mi \<noteq> Some (Inl ZeroDivisionError)"
    using assms(1,2) by (rule sample_waypoints_safe)
  have 2: "sample_waypoints fl pts interval_mi total_dist_mi =
         Some (Inr [destination fl (last pts) total_dist_mi])"
    if "\<forall>d \<in> set (segment_lengths fl pts). d = Inr 0"
    using assms(1,2) ne that by (rule sample_waypoints_zero_route)
  have 3: "\<exists>wps. sample_waypoints fl pts interval_mi total_dist_mi = Some (Inr wps)"
    if "route_length fl pts = Inr A \<and> exact_targets fl interval_mi A" for A
    using sample_waypoints_result [OF assms(1,2) ne, of A total_dist_mi] that by blast
  obtain A where A: "route_length exact_fl pts = Inr A"
    using route_length_exact_total by blast
  have 4: "\<exists>wps. sample_waypoints exact_fl pts interval_mi total_dist_mi = Some (Inr wps)"
    using sample_waypoints_result [OF float_ok_exact assms(2) ne A exact_targets_exact,
        of total_dist_mi]
    by blast
  from 1 2 3 4 show ?thesis by blast
qed

text \<open>The theorem in exact arithmetic at a route of three equal points.\<close>

theorem sampler_tolerates_zero_segments_witness:
  "float_ok exact_fl \<and> (0::real) < 50 \<and>
   2 \<le> length [(1, 2), (1, 2), (1, 2 :: real) :: real \<times> real] \<and>
   segment_lengths exact_fl [(1, 2), (1, 2), (1, 2)] = [Inr 0, Inr 0] \<and>
   sample_waypoints exact_fl [(1, 2), (1, 2), (1, 2)] 50 0 =
     Some (Inr [destination exact_fl (1, 2) 0])"
  using sampler_tolerates_zero_segments [OF float_ok_exact, of 50 "[(1, 2), (1, 2), (1, 2)]" 0]
    float_ok_exact haversine_mi_same [OF float_ok_exact]
  by simp

subsection \<open>Non-positive interval and speed\<close>

lemma estimate_zero_speed:
  "estimate_arrival_times (wp # wps) dep (Fin 0) = Inl ZeroDivisionError"
  by (simp add: arrival_of_def hours_elapsed_def)

lemma equator_degree_pos: "(0::real) < 3958.8 * pi / 180"
  using equator_degree_bounds(1) by simp

text \<open>
  C3 fails on the code. \<open>plan\<close> checks the two addresses and the departure time only.
  With an interval of 0 or of -5 miles on a route of positive length the request never
  returns, since the loop of the sampler never ends; with a speed of 0 the estimator
  raises \<open>ZeroDivisionError\<close>. The route is one degree along the equator; the loop never
  ends in any float arithmetic that rounds monotonically (lemma
  \<open>sample_waypoints_diverges\<close>), and the theorem takes the exact one.
\<close>

theorem plan_accepts_nonpositive_interval_and_speed:
  "plan example_py exact_fl example_world (example_request ''0'' ''60'') = None \<and>
   plan example_py exact_fl example_world (example_request ''-5'' ''60'') = None \<and>
   plan example_py exact_fl example_world (example_request ''50'' ''0'') =
     Some (Inl ZeroDivisionError)"
proof -
  have d: "sample_waypoints exact_fl [(0, 0), (1, 0)] iv 69 = None" if "iv \<le> 0" for iv
    using float_ok_exact that _ equator_degree_pos
    by (rule sample_waypoints_diverges) (simp add: haversine_mi_equator_degree)
  have 1: "plan example_py exact_fl example_world (example_request ''0'' ''60'') = None"
    using d [of 0] by (simp add: plan_def example_py_def example_world_def example_request_def)
  have 2: "plan example_py exact_fl example_world (example_request ''-5'' ''60'') = None"
    using d [of "- 5"] by (simp add: plan_def example_py_def example_world_def example_request_def)
  have 3: "plan example_py exact_fl example_world (example_request ''50'' ''0'') =
           Some (Inl ZeroDivisionError)"
    using sample_equator_degree [of 69]
    by (simp add: plan_def example_py_def example_world_def example_request_def
        arrival_of_def hours_elapsed_def)
  from 1 2 3 show ?thesis by simp
qed

subsection \<open>The estimator\<close>











subsection \<open>Forecast time alignment\<close>

lemma nearest_inv_skip:
  assumes "nearest_inv py ss target i bi bd" "diff_at py ss target i = None"
  shows "nearest_inv py ss target (Suc i) bi bd"
  using assms unfolding nearest_inv_def
  by (auto split: option.splits simp: less_Suc_eq)

lemma nearest_inv_keep:
  assumes "nearest_inv py ss target i bi (Some b)" "diff_at py ss target i = Some d" "\<not> d < b"
  shows "nearest_inv py ss target (Suc i) bi (Some b)"
  using assms unfolding nearest_inv_def
  by (auto simp: less_Suc_eq)

lemma nearest_inv_take:
  assumes "nearest_inv py ss target i bi bd" "diff_at py ss target i = Some d"
    and "case bd of None \<Rightarrow> True | Some b \<Rightarrow> d < b"
  shows "nearest_inv py ss target (Suc i) (Some i) (Some d)"
proof (cases bd)
  case None
  with assms show ?thesis
    unfolding nearest_inv_def by (auto simp: less_Suc_eq)
next
  case (Some b)
  with assms have lt: "d < b" by simp
  from assms(1) Some obtain k where k: "k < i"
    "\<forall>j < i. \<forall>d'. diff_at py ss target j = Some d' \<longrightarrow> b \<le> d'"
    unfolding nearest_inv_def by auto
  have "d < d'" if "j < i" "diff_at py ss target j = Some d'" for j d'
    using k(2) that lt by fastforce
  then show ?thesis
    unfolding nearest_inv_def using assms(2) by (auto simp: less_Suc_eq intro: less_imp_le)
qed

lemma nearest_scan_inv:
  assumes "\<forall>s \<in> set ss. comparable py target s"
    and "drop i ss = rest" and "i \<le> length ss" and "nearest_inv py ss target i bi bd"
  shows "\<exists>bi' bd'. nearest_scan py target i (map PyStr rest) bi bd = Inr (bi', bd') \<and>
                   nearest_inv py ss target (length ss) bi' bd'"
  using assms(2-4)
proof (induction rest arbitrary: i bi bd)
  case Nil
  then have "i = length ss" by simp
  with Nil show ?case by simp
next
  case (Cons s rest)
  from Cons.prems(1) have i: "i < length ss"
    by (metis drop_all list.distinct(1) not_le)
  then have s: "ss ! i = s" and r: "drop (Suc i) ss = rest"
    using Cons.prems(1) by (simp_all add: Cons_nth_drop_Suc [symmetric])
  have le: "Suc i \<le> length ss" using i by simp
  show ?case
  proof (cases "fromisoformat py s")
    case None
    then have "diff_at py ss target i = None"
      by (simp add: diff_at_def s)
    from nearest_inv_skip [OF Cons.prems(3) this] Cons.IH [OF r le]
    show ?thesis using None by simp
  next
    case (Some t)
    have "comparable py target s"
      using assms(1) i s by (metis nth_mem)
    with Some obtain d where d: "datetime_sub t target = Inr d"
      unfolding comparable_def datetime_sub_def
      by (cases "utcoffset t"; cases "utcoffset target") auto
    then have da: "diff_at py ss target i = Some \<bar>d\<bar>"
      by (simp add: diff_at_def s Some)
    show ?thesis
    proof (cases "case bd of None \<Rightarrow> True | Some b \<Rightarrow> \<bar>d\<bar> < b")
      case True
      from nearest_inv_take [OF Cons.prems(3) da True] Cons.IH [OF r le]
      show ?thesis using Some d True by (simp add: Let_def)
    next
      case False
      then obtain b where b: "bd = Some b" "\<not> \<bar>d\<bar> < b"
        by (cases bd) auto
      from nearest_inv_keep [OF Cons.prems(3) [unfolded b(1)] da b(2)] Cons.IH [OF r le]
      show ?thesis using Some d b by (simp add: Let_def)
    qed
  qed
qed

lemma nearest_hour_index_result:
  assumes "\<forall>s \<in> set series. comparable py target s"
  shows "\<exists>bi bd. nearest_hour_index py (map PyStr series) target =
                   (case bd of None \<Rightarrow> Inr None
                    | Some b \<Rightarrow> if b \<le> TWELVE_HOURS_US then Inr bi else Inr None) \<and>
                 nearest_inv py series target (length series) bi bd"
proof -
  have "nearest_inv py series target 0 None None"
    by (simp add: nearest_inv_def)
  from nearest_scan_inv [OF assms _ _ this, of series]
  obtain bi bd where "nearest_scan py target 0 (map PyStr series) None None = Inr (bi, bd)"
    and "nearest_inv py series target (length series) bi bd"
    by auto
  then show ?thesis
    by (intro exI [of _ bi] exI [of _ bd]) (simp add: nearest_hour_index_def)
qed

lemma example_diffs:
  "diff_at example_py [''2024-01-01T08:00'', ''bad'', ''2024-01-01T10:00'']
     \<lparr> local_us = 63839696400000000, utcoffset = None \<rparr> 0 = Some 3600000000"
  "diff_at example_py [''2024-01-01T08:00'', ''bad'', ''2024-01-01T10:00'']
     \<lparr> local_us = 63839696400000000, utcoffset = None \<rparr> (Suc 0) = None"
  "diff_at example_py [''2024-01-01T08:00'', ''bad'', ''2024-01-01T10:00'']
     \<lparr> local_us = 63839696400000000, utcoffset = None \<rparr> 2 = Some 3600000000"
  by (simp_all add: diff_at_def example_py_def datetime_sub_def)

text \<open>
  C1, as the code has it. For every series of strings whose parsable entries carry a zone
  exactly when the target does, the scan returns without raising. It reports not-found
  exactly when every entry that parses is more than twelve hours from the target (in
  particular when none parses). Otherwise it returns an index of a parsable entry at
  most twelve hours away whose distance is the least of all parsable entries and
  strictly less than that of every earlier one: the first index of the minimum. Entries
  that do not parse take no part.
\<close>

theorem nearest_hour_first_minimum:
  assumes "\<forall>s \<in> set series. comparable py target s"
  shows "(\<exists>r. nearest_hour_index py (map PyStr series) target = Inr r) \<and>
         (nearest_hour_index py (map PyStr series) target = Inr None \<longleftrightarrow>
            (\<forall>j < length series. \<forall>d. diff_at py series target j = Some d \<longrightarrow> TWELVE_HOURS_US < d)) \<and>
         (\<forall>i. nearest_hour_index py (map PyStr series) target = Inr (Some i) \<longrightarrow>
            i < length series \<and>
            (\<exists>d. diff_at py series target i = Some d \<and> d \<le> TWELVE_HOURS_US \<and>
               (\<forall>j < length series. \<forall>d'. diff_at py series target j = Some d' \<longrightarrow> d \<le> d') \<and>
               (\<forall>j < i. \<forall>d'. diff_at py series target j = Some d' \<longrightarrow> d < d')))"
proof -
  from nearest_hour_index_result [OF assms] obtain bi bd where
    r: "nearest_hour_index py (map PyStr series) target =
          (case bd of None \<Rightarrow> Inr None
           | Some b \<Rightarrow> if b \<le> TWELVE_HOURS_US then Inr bi else Inr None)"
    and inv: "nearest_inv py series target (length series) bi bd"
    by blast
  show ?thesis
  proof (cases bd)
    case None
    with r inv show ?thesis
      by (simp add: nearest_inv_def)
  next
    case (Some b)
    with inv obtain k where k: "k < length series" "bi = Some k"
      "diff_at py series target k = Some b"
      "\<forall>j < length series. \<forall>d. diff_at py series target j = Some d \<longrightarrow> b \<le> d"
      "\<forall>j < k. \<forall>d. diff_at py series target j = Some d \<longrightarrow> b < d"
      unfolding nearest_inv_def by auto
    show ?thesis
    proof (cases "b \<le> TWELVE_HOURS_US")
      case True
      then have "nearest_hour_index py (map PyStr series) target = Inr (Some k)"
        using r Some k(2) by simp
      moreover have "\<not> (\<forall>j < length series. \<forall>d. diff_at py series target j = Some d \<longrightarrow>
                          TWELVE_HOURS_US < d)"
        using k(1,3) True by fastforce
      ultimately show ?thesis
        using k True by auto
    next
      case False
      then have "nearest_hour_index py (map PyStr series) target = Inr None"
        using r Some by simp
      moreover have "\<forall>j < length series. \<forall>d. diff_at py series target j = Some d \<longrightarrow>
                       TWELVE_HOURS_US < d"
        using k(4) False by fastforce
      ultimately show ?thesis
        by simp
    qed
  qed
qed

text \<open>
  The theorem at the series 08:00, an unparsable entry, 10:00 and the target 09:00: the
  two parsable entries are equally far, and index 0 is returned.
\<close>

theorem nearest_hour_first_minimum_witness:
  "comparable example_py \<lparr> local_us = 63839696400000000, utcoffset = None \<rparr> ''2024-01-01T08:00'' \<and>
   comparable example_py \<lparr> local_us = 63839696400000000, utcoffset = None \<rparr> ''bad'' \<and>
   comparable example_py \<lparr> local_us = 63839696400000000, utcoffset = None \<rparr> ''2024-01-01T10:00'' \<and>
   nearest_hour_index example_py
     (map PyStr [''2024-01-01T08:00'', ''bad'', ''2024-01-01T10:00''])
     \<lparr> local_us = 63839696400000000, utcoffset = None \<rparr> = Inr (Some 0)"
proof -
  let ?t = "\<lparr> local_us = 63839696400000000, utcoffset = None \<rparr>"
  let ?s = "[''2024-01-01T08:00'', ''bad'', ''2024-01-01T10:00'']"
  have c: "\<forall>s \<in> set ?s. comparable example_py ?t s"
    by (simp add: comparable_def example_py_def)
  note th = nearest_hour_first_minimum [OF c]
  from th obtain r where r: "nearest_hour_index example_py (map PyStr ?s) ?t = Inr r"
    by blast
  have "r \<noteq> None"
  proof
    assume "r = None"
    with r th have "\<forall>d. diff_at example_py ?s ?t 0 = Some d \<longrightarrow> TWELVE_HOURS_US < d"
      by auto
    then show False
      by (simp add: example_diffs TWELVE_HOURS_US_def)
  qed
  then obtain i where i: "r = Some i" by auto
  with r th have l: "i < 3" and
    f: "\<exists>d. diff_at example_py ?s ?t i = Some d \<and>
           (\<forall>j < i. \<forall>d'. diff_at example_py ?s ?t j = Some d' \<longrightarrow> d < d')"
    by auto
  from l have "i = 0 \<or> i = 1 \<or> i = 2" by auto
  then have "i = 0"
  proof (elim disjE)
    assume "i = 1"
    with f show ?thesis by (simp add: example_diffs)
  next
    assume "i = 2"
    with f have "\<forall>j < 2. \<forall>d'. diff_at example_py ?s ?t j = Some d' \<longrightarrow> (3600000000::int) < d'"
      by (simp add: example_diffs)
    then have "\<forall>d'. diff_at example_py ?s ?t 0 = Some d' \<longrightarrow> (3600000000::int) < d'"
      by (metis zero_less_numeral)
    then show ?thesis by (simp add: example_diffs)
  qed simp
  with r i c show ?thesis by simp
qed

text \<open>
  C1 as stated fails: an entry that carries a UTC offset parses to an aware value, and
  its subtraction from the naive target raises \<open>TypeError\<close>, neither an index nor
  not-found.
\<close>

theorem nearest_hour_mixed_zone_counterexample:
  "nearest_hour_index example_py [PyStr ''2024-01-01T09:00+00:00'']
     \<lparr> local_us = 63839696400000000, utcoffset = None \<rparr> = Inl TypeError"
  by (simp add: nearest_hour_index_def example_py_def datetime_sub_def)

subsection \<open>The decoder\<close>



lemma decode_infinite_raises:
  "decode_precipitation_type py (PyFloat PosInf) = Inl OverflowError"
  "decode_precipitation_type py (PyFloat NegInf) = Inl OverflowError"
  by (simp_all add: decode_precipitation_type_def py_int_def)

lemma decode_snow: "decode_precipitation_type py (PyFloat (Fin 5)) = Inr (Some ''snow'', ''Snow'')"
  by (simp add: decode_precipitation_type_def py_int_def py_trunc_def PRECIP_TYPE_MAP_def)

lemma decode_no_precipitation:
  "decode_precipitation_type py (PyFloat (Fin 0)) = Inr (None, ''No precipitation'')"
  by (simp add: decode_precipitation_type_def py_int_def py_trunc_def PRECIP_TYPE_MAP_def)

lemma wmo_refine_keeps:
  assumes "pt \<noteq> None" "WMO_PRECIP_TYPE w \<noteq> Some ''fog''" "WMO_PRECIP_TYPE w \<noteq> Some ''thunderstorm''"
  shows "wmo_refine (pt, c) (Some w) = (pt, c)"
  using assms by (auto simp: wmo_refine_def Let_def)




text \<open>
  C5. A WMO code that maps to fog or thunderstorm replaces the precipitation type of the
  first stage, whatever it is; one that maps to showers or snow showers is taken when
  the first stage gave none, and otherwise the type of the first stage stays; a type of
  the first stage that is not null is left as it is, with its label, by every WMO code
  that maps to neither fog nor thunderstorm. The code 5 with any WMO code (a finite
  number, or none) that maps to neither gives snow, and the code 0 with the WMO code 95
  gives thunderstorm.
\<close>

theorem wmo_precedence:
  "(WMO_PRECIP_TYPE w \<in> {Some ''fog'', Some ''thunderstorm''} \<longrightarrow>
      fst (wmo_refine (pt, c) (Some w)) = WMO_PRECIP_TYPE w) \<and>
   (WMO_PRECIP_TYPE w \<in> {Some ''showers'', Some ''snow_showers''} \<longrightarrow>
      fst (wmo_refine (pt, c) (Some w)) = (if pt = None then WMO_PRECIP_TYPE w else pt)) \<and>
   (pt \<noteq> None \<and> WMO_PRECIP_TYPE w \<notin> {Some ''fog'', Some ''thunderstorm''} \<longrightarrow>
      wmo_refine (pt, c) (Some w) = (pt, c)) \<and>
   (wc = None \<or> (\<exists>x. wc = Some (Fin x) \<and>
        WMO_PRECIP_TYPE (py_trunc x) \<notin> {Some ''fog'', Some ''thunderstorm''}) \<longrightarrow>
      decode_conditions py (Some (Fin 5)) wc = Inr (Some ''snow'', Some ''Snow'')) \<and>
   decode_conditions py (Some (Fin 0)) (Some (Fin 95)) =
     Inr (Some ''thunderstorm'', Some ''Thunderstorm'')"
proof (intro conjI impI)
  assume "WMO_PRECIP_TYPE w \<in> {Some ''fog'', Some ''thunderstorm''}"
  then show "fst (wmo_refine (pt, c) (Some w)) = WMO_PRECIP_TYPE w"
    by (auto simp: wmo_refine_def Let_def)
next
  assume "WMO_PRECIP_TYPE w \<in> {Some ''showers'', Some ''snow_showers''}"
  then show "fst (wmo_refine (pt, c) (Some w)) = (if pt = None then WMO_PRECIP_TYPE w else pt)"
    by (auto simp: wmo_refine_def Let_def truthy_def)
next
  assume "pt \<noteq> None \<and> WMO_PRECIP_TYPE w \<notin> {Some ''fog'', Some ''thunderstorm''}"
  then show "wmo_refine (pt, c) (Some w) = (pt, c)"
    by (intro wmo_refine_keeps) auto
next
  assume "wc = None \<or> (\<exists>x. wc = Some (Fin x) \<and>
        WMO_PRECIP_TYPE (py_trunc x) \<notin> {Some ''fog'', Some ''thunderstorm''})"
  then show "decode_conditions py (Some (Fin 5)) wc = Inr (Some ''snow'', Some ''Snow'')"
  proof
    assume "wc = None"
    then show ?thesis
      by (simp add: decode_conditions_def decode_snow int_or_none_def wmo_refine_def)
  next
    assume "\<exists>x. wc = Some (Fin x) \<and>
        WMO_PRECIP_TYPE (py_trunc x) \<notin> {Some ''fog'', Some ''thunderstorm''}"
    then obtain x where "wc = Some (Fin x)"
      "WMO_PRECIP_TYPE (py_trunc x) \<noteq> Some ''fog''"
      "WMO_PRECIP_TYPE (py_trunc x) \<noteq> Some ''thunderstorm''"
      by auto
    then show ?thesis
      by (simp add: decode_conditions_def decode_snow int_or_none_def py_int_def wmo_refine_keeps)
  qed
next
  show "decode_conditions py (Some (Fin 0)) (Some (Fin 95)) =
     Inr (Some ''thunderstorm'', Some ''Thunderstorm'')"
    by (simp add: decode_conditions_def decode_no_precipitation int_or_none_def py_int_def
        py_trunc_def wmo_refine_def WMO_PRECIP_TYPE_def WMO_LABEL_def)
qed

text \<open>The theorem at the WMO codes 45, 85 and 80.\<close>

theorem wmo_precedence_witness:
  "WMO_PRECIP_TYPE 45 = Some ''fog'' \<and>
   fst (wmo_refine (Some ''rain'', Some ''Rain'') (Some 45)) = Some ''fog'' \<and>
   WMO_PRECIP_TYPE 85 = Some ''snow_showers'' \<and>
   fst (wmo_refine (None, Some ''No precipitation'') (Some 85)) = Some ''snow_showers'' \<and>
   WMO_PRECIP_TYPE 80 = Some ''showers'' \<and>
   wmo_refine (Some ''rain'', Some ''Rain'') (Some 80) = (Some ''rain'', Some ''Rain'') \<and>
   py_trunc 80 = 80 \<and>
   decode_conditions example_py (Some (Fin 5)) (Some (Fin 80)) = Inr (Some ''snow'', Some ''Snow'')"
  using wmo_precedence [of 45 "Some ''rain''" "Some ''Rain''" None example_py]
    wmo_precedence [of 85 None "Some ''No precipitation''" None example_py]
    wmo_precedence [of 80 "Some ''rain''" "Some ''Rain''" "Some (Fin 80)" example_py]
  by (simp add: WMO_PRECIP_TYPE_def py_trunc_def)

subsection \<open>One retrieval\<close>

lemma ebind_Inr [simp]: "ebind (Inr x) f = f x"
  by (simp add: ebind_def)

lemma ebind_Inl [simp]: "ebind (Inl e) f = Inl e"
  by (simp add: ebind_def)

lemma ebind_eq_Inr: "ebind m f = Inr w \<longleftrightarrow> (\<exists>x. m = Inr x \<and> f x = Inr w)"
  by (cases m) simp_all

lemma val_null:
  "cell hourly i key = PyNone \<Longrightarrow> val py hourly i key fallback = Inr fallback"
  by (auto simp: val_def cell_def Let_def split: option.splits if_splits)

lemma val_numeric:
  assumes "numeric_or_null (cell hourly i key)"
  shows "val py hourly i key fallback =
         Inr (case finite_number (cell hourly i key) of None \<Rightarrow> fallback | Some x \<Rightarrow> Some (Fin x))"
proof (cases "cell hourly i key = PyNone")
  case True
  then show ?thesis
    by (simp add: val_null finite_number_def)
next
  case False
  with assms obtain x where x: "finite_number (cell hourly i key) = Some x"
    by (auto simp: numeric_or_null_def)
  from False obtain arr where arr: "hourly key = Some arr" "i < length arr"
    "arr ! i = cell hourly i key"
    by (auto simp: cell_def split: option.splits if_splits)
  have "py_float py (cell hourly i key) = Inr (Fin x)"
    using x by (auto simp: finite_number_def py_float_def split: pyval.splits pyfloat.splits if_splits)
  then show ?thesis
    using arr False x by (simp add: val_def)
qed

lemma or_zero_numeric:
  "or_zero (case finite_number v of None \<Rightarrow> Some (Fin d) | Some x \<Rightarrow> Some (Fin x)) =
   Fin (case finite_number v of None \<Rightarrow> d | Some x \<Rightarrow> x)"
  by (simp add: or_zero_def split: option.splits)

lemma decode_finite_number:
  assumes "numeric_or_null v"
  shows "decode_precipitation_type py
           (case (case finite_number v of None \<Rightarrow> None | Some x \<Rightarrow> Some (Fin x)) of
              None \<Rightarrow> PyNone | Some f \<Rightarrow> PyFloat f) =
         Inr (case finite_number v of
                None \<Rightarrow> (None, ''Unknown'')
              | Some x \<Rightarrow>
                  (case PRECIP_TYPE_MAP (py_trunc x) of
                     None \<Rightarrow> (None, ''Type '' @ show_int (py_trunc x))
                   | Some r \<Rightarrow> r))"
  by (simp add: decode_precipitation_type_def py_int_def split: option.splits)

lemma int_or_none_finite:
  "int_or_none py (case finite_number v of None \<Rightarrow> None | Some x \<Rightarrow> Some (Fin x)) =
   Inr (map_option py_trunc (finite_number v))"
  by (simp add: int_or_none_def py_int_def split: option.splits)

lemma build_record_numeric:
  assumes "\<forall>key \<in> set FIELDS. numeric_or_null (cell hourly i key)"
  shows "build_record py hourly i wind = Inr (defaulted_record hourly i wind)"
proof -
  have n: "numeric_or_null (cell hourly i ''temperature_2m'')"
    "numeric_or_null (cell hourly i ''precipitation'')"
    "numeric_or_null (cell hourly i ''rain'')"
    "numeric_or_null (cell hourly i ''showers'')"
    "numeric_or_null (cell hourly i ''snowfall'')"
    "numeric_or_null (cell hourly i ''precipitation_type'')"
    "numeric_or_null (cell hourly i ''weather_code'')"
    "numeric_or_null (cell hourly i ''cloud_cover'')"
    "numeric_or_null (cell hourly i ''wind_speed_10m'')"
    "numeric_or_null (cell hourly i ''wind_direction_10m'')"
    "numeric_or_null (cell hourly i ''visibility'')"
    using assms by (simp_all add: FIELDS_def)
  have deg: "degrees_to_compass
          (case finite_number v of None \<Rightarrow> Some (Fin 0) | Some x \<Rightarrow> Some (Fin x)) =
        Inr (directions ! nat (round_half_even ((case finite_number v of None \<Rightarrow> 0 | Some x \<Rightarrow> x) / 22.5) mod 16))"
    for v
    by (simp add: degrees_to_compass_def split: option.splits)
  have temp: "map_option (\<lambda>f. fl_round f 1)
          (case finite_number v of None \<Rightarrow> None | Some x \<Rightarrow> Some (Fin x)) =
        map_option (\<lambda>x. Fin (py_round x 1)) (finite_number v)" for v
    by (simp add: fl_round_def split: option.splits)
  have rnd: "fl_round (Fin x) k = Fin (py_round x k)" for x k
    by (simp add: fl_round_def)
  show ?thesis
    unfolding build_record_def defaulted_record_def
    by (simp add: n val_numeric or_zero_numeric decode_finite_number int_or_none_finite
        deg temp rnd Let_def num_def fl_scale_def fl_min_def fl_ge_def min_def
        del: One_nat_def)
qed

lemma fetch_one_reaches_record:
  assumes "arrival_dt wp = Some a" "to_naive_utc a = Inr u" "http = Inr resp"
    "status_code resp = 200" "json resp = Inr (Some hourly)" "hourly ''time'' = Some ts"
    "ts \<noteq> []" "nearest_hour_index py ts u = Inr (Some i)"
  shows "fetch_one py http wp wind = build_record py hourly i wind"
  using assms by (simp add: fetch_one_def)

lemma example_cells:
  "cell example_hourly 1 ''temperature_2m'' = PyNone"
  "cell example_hourly 1 ''precipitation'' = PyFloat (Fin 0.05)"
  "cell example_hourly 1 ''rain'' = PyInt 0"
  "cell example_hourly 1 ''showers'' = PyInt 0"
  "cell example_hourly 1 ''snowfall'' = PyFloat (Fin 0.5)"
  "cell example_hourly 1 ''precipitation_type'' = PyInt 5"
  "cell example_hourly 1 ''weather_code'' = PyInt 73"
  "cell example_hourly 1 ''cloud_cover'' = PyInt 100"
  "cell example_hourly 1 ''wind_speed_10m'' = PyFloat (Fin 12.34)"
  "cell example_hourly 1 ''wind_direction_10m'' = PyInt 270"
  "cell example_hourly 1 ''visibility'' = PyInt 8000"
  by (simp_all add: cell_def example_hourly_def del: One_nat_def)

lemma finite_number_small [simp]:
  "\<bar>n\<bar> < 1000000 \<Longrightarrow> finite_number (PyInt n) = Some (of_int n)"
  "finite_number (PyFloat (Fin x)) = Some x"
  "finite_number PyNone = None"
proof -
  have "(1000000::int) \<le> 2 ^ 1024 - 2 ^ 970"
    by simp
  then show "\<bar>n\<bar> < 1000000 \<Longrightarrow> finite_number (PyInt n) = Some (of_int n)"
    by (simp add: finite_number_def)
qed (simp_all add: finite_number_def)

lemma numeric_or_null_simps [simp]:
  "numeric_or_null PyNone" "numeric_or_null (PyFloat (Fin x))"
  "\<bar>n\<bar> < 1000000 \<Longrightarrow> numeric_or_null (PyInt n)"
  by (simp_all add: numeric_or_null_def)

lemma example_numeric: "\<forall>key \<in> set FIELDS. numeric_or_null (cell example_hourly 1 key)"
  by (simp add: FIELDS_def example_cells del: One_nat_def)

lemma example_nearest:
  "nearest_hour_index example_py
     [PyStr ''2024-01-01T08:00'', PyStr ''2024-01-01T09:00'', PyStr ''2024-01-01T10:00'']
     \<lparr> local_us = 63839695800000000, utcoffset = None \<rparr> = Inr (Some 1)"
  by (simp add: nearest_hour_index_def example_py_def datetime_sub_def TWELVE_HOURS_US_def)

lemma example_primary:
  "PRECIP_TYPE_MAP 5 = Some (Some ''snow'', ''Snow'')"
  "WMO_PRECIP_TYPE 73 = None" "WMO_LABEL 73 = Some ''Moderate snow''"
  by (simp_all add: PRECIP_TYPE_MAP_def WMO_PRECIP_TYPE_def WMO_LABEL_def)

lemma example_defaulted: "defaulted_record example_hourly 1 40 = example_weather"
  by (simp add: defaulted_record_def example_weather_def example_cells num_def py_trunc_def
      example_primary py_round_def round_half_even_def directions_def wmo_refine_def
      truthy_def Let_def del: One_nat_def)

lemma example_time:
  "example_hourly ''time'' =
     Some [PyStr ''2024-01-01T08:00'', PyStr ''2024-01-01T09:00'', PyStr ''2024-01-01T10:00'']"
  by (simp add: example_hourly_def)

lemma example_fetch_one:
  "fetch_one example_py (Inr example_response) (example_waypoint p) 40 = Inr example_weather"
proof -
  have "fetch_one example_py (Inr example_response) (example_waypoint p) 40 =
        build_record example_py example_hourly 1 40"
    by (rule fetch_one_reaches_record [where a = "\<lparr> local_us = 63839695800000000, utcoffset = None \<rparr>"
          and u = "\<lparr> local_us = 63839695800000000, utcoffset = None \<rparr>"
          and resp = example_response
          and ts = "[PyStr ''2024-01-01T08:00'', PyStr ''2024-01-01T09:00'', PyStr ''2024-01-01T10:00'']"])
      (simp_all add: example_waypoint_def to_naive_utc_def example_response_def
        example_time example_nearest)
  then show ?thesis
    by (simp only: build_record_numeric [OF example_numeric] example_defaulted)
qed

lemma build_record_available:
  "build_record py hourly i wind = Inr w \<Longrightarrow> available w \<and> reason w = None"
  unfolding build_record_def Let_def
  by (auto simp: ebind_eq_Inr)

text \<open>
  The precipitation type and the condition of a decoded record are those of the two
  stages, applied to the two codes read at the selected index.
\<close>

lemma build_record_conditions:
  assumes "build_record py hourly i wind = Inr w"
  shows "\<exists>c wc. val py hourly i ''precipitation_type'' None = Inr c \<and>
                val py hourly i ''weather_code'' None = Inr wc \<and>
                decode_conditions py c wc = Inr (precip_type w, condition w)"
  using assms unfolding build_record_def Let_def
  by (auto simp: ebind_eq_Inr decode_conditions_def)

lemma weather_unavailable_reason:
  "\<not> available (weather_unavailable r) \<and> reason (weather_unavailable r) = Some r"
  by (simp add: weather_unavailable_def)

lemma fetch_one_result:
  assumes "fetch_one py http wp wind = Inr w"
  shows "(\<exists>r. w = weather_unavailable r) \<or> (\<exists>hourly i. build_record py hourly i wind = Inr w)"
proof -
  from assms obtain a where a: "arrival_dt wp = Some a"
    by (auto simp: fetch_one_def split: option.splits)
  with assms obtain u resp where u: "to_naive_utc a = Inr u" and h: "http = Inr resp"
    and r: "(if status_code resp \<noteq> 200
             then Inr (weather_unavailable (HttpStatus (status_code resp)))
             else ebind (json resp) (\<lambda>data.
                case data of
                  None \<Rightarrow> Inr (weather_unavailable NoHourly)
                | Some hourly \<Rightarrow>
                    (let times' = (case hourly ''time'' of None \<Rightarrow> [] | Some a \<Rightarrow> a)
                     in if times' = [] then Inr (weather_unavailable EmptySeries)
                        else
                          ebind (nearest_hour_index py times' u) (\<lambda>best_idx.
                            case best_idx of
                              None \<Rightarrow> Inr (weather_unavailable (OutsideWindow u))
                            | Some i \<Rightarrow> build_record py hourly i wind)))) = Inr w"
    by (auto simp: fetch_one_def ebind_eq_Inr)
  show ?thesis
  proof (cases "status_code resp = 200")
    case False
    with r show ?thesis by auto
  next
    case True
    with r obtain data where d: "json resp = Inr data"
      and r2: "(case data of
                  None \<Rightarrow> Inr (weather_unavailable NoHourly)
                | Some hourly \<Rightarrow>
                    (let times' = (case hourly ''time'' of None \<Rightarrow> [] | Some a \<Rightarrow> a)
                     in if times' = [] then Inr (weather_unavailable EmptySeries)
                        else
                          ebind (nearest_hour_index py times' u) (\<lambda>best_idx.
                            case best_idx of
                              None \<Rightarrow> Inr (weather_unavailable (OutsideWindow u))
                            | Some i \<Rightarrow> build_record py hourly i wind))) = Inr w"
      by (auto simp: ebind_eq_Inr)
    show ?thesis
    proof (cases data)
      case None
      with r2 show ?thesis by auto
    next
      case (Some hourly)
      define ts where "ts = (case hourly ''time'' of None \<Rightarrow> [] | Some a \<Rightarrow> a)"
      show ?thesis
      proof (cases "ts = []")
        case True
        with r2 Some show ?thesis by (auto simp: ts_def Let_def)
      next
        case False
        with r2 Some obtain best where
          r3: "(case best of
                  None \<Rightarrow> Inr (weather_unavailable (OutsideWindow u))
                | Some i \<Rightarrow> build_record py hourly i wind) = Inr w"
          by (auto simp: ts_def Let_def ebind_eq_Inr)
        then show ?thesis
          by (cases best) auto
      qed
    qed
  qed
qed

lemma fetch_one_dichotomy:
  assumes "fetch_one py http wp wind = Inr w"
  shows "(available w \<and> reason w = None) \<or> (\<not> available w \<and> reason w \<noteq> None)"
  using fetch_one_result [OF assms] build_record_available weather_unavailable_reason
  by (metis option.distinct(1))

lemma future_weather_dichotomy:
  "(available (future_weather (fetch_one py http wp wind)) \<and>
      reason (future_weather (fetch_one py http wp wind)) = None) \<or>
   (\<not> available (future_weather (fetch_one py http wp wind)) \<and>
      reason (future_weather (fetch_one py http wp wind)) \<noteq> None)"
proof (cases "fetch_one py http wp wind")
  case (Inl e)
  then show ?thesis
    by (simp add: future_weather_def weather_unavailable_reason)
next
  case (Inr w)
  with fetch_one_dichotomy [OF Inr] show ?thesis
    by (simp add: future_weather_def)
qed

lemma length_store_results [simp]: "length (store_results r order wps) = length wps"
  by (induction order arbitrary: wps) simp_all

lemma store_results_nth:
  "i < length wps \<Longrightarrow>
   store_results r order wps ! i =
     (if i \<in> set order then (wps ! i)\<lparr>weather := Some (r i)\<rparr> else wps ! i)"
proof (induction order arbitrary: wps)
  case Nil
  then show ?case by simp
next
  case (Cons idx order)
  let ?wps = "wps[idx := (wps ! idx)\<lparr>weather := Some (r idx)\<rparr>]"
  have "i < length ?wps" using Cons.prems by simp
  from Cons.IH [OF this] show ?case
    using Cons.prems by (cases "i = idx") auto
qed

lemma fetch_stage_nth:
  assumes "set order = {..<length waypoints}" "i < length waypoints"
  shows "fetch_weather_for_waypoints py https order waypoints wind ! i =
         (waypoints ! i)\<lparr>weather :=
            Some (future_weather (fetch_one py (https i) (waypoints ! i) wind))\<rparr>"
  using assms by (simp add: fetch_weather_for_waypoints_def store_results_nth)

lemma example_fetch_failed:
  "fetch_one example_py (example_forecasts 0) (example_waypoint p) 40 = Inl RequestException"
  by (simp add: fetch_one_def example_forecasts_def example_waypoint_def to_naive_utc_def)

text \<open>
  C9. Take a retrieval that reaches the decoding: the answer has status 200 and an hourly
  object with a non-empty time series, and an index is selected. A null at the selected
  index never raises in \<open>val\<close>, which returns the fallback of the field. When each of the
  eleven fields is a finite number or null there, the retrieval returns the record in
  which every number is decoded and every null is replaced by its default,
  with the availability flag set; a null temperature gives no temperature in it.
\<close>

theorem null_fields_take_defaults:
  assumes "arrival_dt wp = Some a" and "to_naive_utc a = Inr u" and "http = Inr resp"
    and "status_code resp = 200" and "json resp = Inr (Some hourly)"
    and "hourly ''time'' = Some ts" and "ts \<noteq> []"
    and "nearest_hour_index py ts u = Inr (Some i)"
    and "\<forall>key \<in> set FIELDS. numeric_or_null (cell hourly i key)"
  shows "fetch_one py http wp wind = Inr (defaulted_record hourly i wind) \<and>
         available (defaulted_record hourly i wind) \<and>
         (\<forall>key fallback. cell hourly i key = PyNone \<longrightarrow>
            val py hourly i key fallback = Inr fallback) \<and>
         (\<forall>key dflt. cell hourly i key = PyNone \<longrightarrow> num hourly i key dflt = dflt) \<and>
         (cell hourly i ''temperature_2m'' = PyNone \<longrightarrow>
            temp_f (defaulted_record hourly i wind) = None)"
proof -
  have "fetch_one py http wp wind = Inr (defaulted_record hourly i wind)"
    using fetch_one_reaches_record [OF assms(1-8)] build_record_numeric [OF assms(9)]
    by simp
  moreover have "available (defaulted_record hourly i wind)"
    by (simp add: defaulted_record_def Let_def)
  moreover have "num hourly i key dflt = dflt" if "cell hourly i key = PyNone" for key dflt
    using that by (simp add: num_def)
  moreover have "temp_f (defaulted_record hourly i wind) = None"
    if "cell hourly i ''temperature_2m'' = PyNone"
    using that by (simp add: defaulted_record_def Let_def)
  ultimately show ?thesis
    using val_null by blast
qed

text \<open>
  The theorem at the example forecast, whose temperature is null at the selected hour:
  the record has no temperature, and the other fields are decoded.
\<close>

theorem null_fields_take_defaults_witness:
  "cell example_hourly 1 ''temperature_2m'' = PyNone \<and>
   fetch_one example_py (Inr example_response) (example_waypoint (1, 0)) 40 =
     Inr example_weather \<and>
   temp_f example_weather = None \<and> available example_weather \<and>
   precip_in_hr example_weather = Fin 0.05 \<and> wind_dir example_weather = ''W''"
proof -
  have "fetch_one example_py (Inr example_response) (example_waypoint (1, 0)) 40 =
        Inr (defaulted_record example_hourly 1 40)"
    by (rule null_fields_take_defaults
          [where a = "\<lparr> local_us = 63839695800000000, utcoffset = None \<rparr>"
             and u = "\<lparr> local_us = 63839695800000000, utcoffset = None \<rparr>"
             and resp = example_response
             and ts = "[PyStr ''2024-01-01T08:00'', PyStr ''2024-01-01T09:00'',
                        PyStr ''2024-01-01T10:00'']",
           THEN conjunct1])
      (simp_all add: example_waypoint_def to_naive_utc_def example_response_def
        example_time example_nearest example_numeric del: One_nat_def)
  then have "fetch_one example_py (Inr example_response) (example_waypoint (1, 0)) 40 =
        Inr example_weather"
    by (simp only: example_defaulted)
  moreover have "temp_f example_weather = None \<and> available example_weather \<and>
      precip_in_hr example_weather = Fin 0.05 \<and> wind_dir example_weather = ''W''"
    by (simp add: example_weather_def)
  ultimately show ?thesis
    using example_cells(1) by blast
qed

text \<open>
  C8. When every future completes, in any order, the stage returns the waypoints with
  the weather of each set: to the record its own retrieval returned, or to the
  unavailable record of the exception its own retrieval raised. That record is
  available and carries no reason, or is unavailable and carries one. It depends on the
  waypoint and on the answer to its own request only: another answer to any other
  request, and another completion order, leave it as it is.
\<close>

theorem fetch_stage_fills_every_weather:
  assumes "set order = {..<length waypoints}"
  shows "length (fetch_weather_for_waypoints py https order waypoints wind) = length waypoints \<and>
         (\<forall>i < length waypoints.
            fetch_weather_for_waypoints py https order waypoints wind ! i =
              (waypoints ! i)\<lparr>weather :=
                 Some (future_weather (fetch_one py (https i) (waypoints ! i) wind))\<rparr> \<and>
            (\<exists>w. weather (fetch_weather_for_waypoints py https order waypoints wind ! i) = Some w \<and>
                 (available w \<and> reason w = None \<or> \<not> available w \<and> reason w \<noteq> None)) \<and>
            (\<forall>https' order'. https' i = https i \<and> set order' = {..<length waypoints} \<longrightarrow>
               fetch_weather_for_waypoints py https' order' waypoints wind ! i =
               fetch_weather_for_waypoints py https order waypoints wind ! i))"
proof (intro conjI allI impI)
  show "length (fetch_weather_for_waypoints py https order waypoints wind) = length waypoints"
    by (simp add: fetch_weather_for_waypoints_def)
next
  fix i assume i: "i < length waypoints"
  show "fetch_weather_for_waypoints py https order waypoints wind ! i =
          (waypoints ! i)\<lparr>weather :=
             Some (future_weather (fetch_one py (https i) (waypoints ! i) wind))\<rparr>"
    using assms i by (rule fetch_stage_nth)
  then show "\<exists>w. weather (fetch_weather_for_waypoints py https order waypoints wind ! i) = Some w \<and>
                 (available w \<and> reason w = None \<or> \<not> available w \<and> reason w \<noteq> None)"
    using future_weather_dichotomy [of py "https i" "waypoints ! i" wind] by simp
next
  fix i https' order'
  assume i: "i < length waypoints"
    and h: "https' i = https i \<and> set order' = {..<length waypoints}"
  then show "fetch_weather_for_waypoints py https' order' waypoints wind ! i =
             fetch_weather_for_waypoints py https order waypoints wind ! i"
    using assms by (simp add: fetch_stage_nth)
qed

text \<open>
  The theorem at two waypoints, the second completing first: the request of the first
  fails, and the second is decoded all the same.
\<close>

theorem fetch_stage_fills_every_weather_witness:
  "set [1, 0] = {..<length [example_waypoint (0, 0), example_waypoint (1, 0)]} \<and>
   map weather
     (fetch_weather_for_waypoints example_py example_forecasts [1, 0]
        [example_waypoint (0, 0), example_waypoint (1, 0)] 40) =
   [Some (weather_unavailable (StrOfExn RequestException)), Some example_weather]"
proof -
  let ?wps = "[example_waypoint (0, 0), example_waypoint (1, 0)]"
  let ?r = "fetch_weather_for_waypoints example_py example_forecasts [1, 0] ?wps 40"
  have s: "set [1, 0] = {..<length ?wps}"
    by auto
  note th = fetch_stage_fills_every_weather [OF s, of example_py example_forecasts 40]
  from th have l: "length ?r = 2"
    by simp
  from th have "?r ! 0 = (?wps ! 0)\<lparr>weather :=
      Some (future_weather (fetch_one example_py (example_forecasts 0) (?wps ! 0) 40))\<rparr>"
    by (simp del: nth_Cons_0)
  then have 0: "weather (?r ! 0) = Some (weather_unavailable (StrOfExn RequestException))"
    by (simp add: example_fetch_failed future_weather_def)
  from th have "?r ! 1 = (?wps ! 1)\<lparr>weather :=
      Some (future_weather (fetch_one example_py (example_forecasts 1) (?wps ! 1) 40))\<rparr>"
    by (metis One_nat_def Suc_1 length_Cons lessI list.size(3))
  then have 1: "weather (?r ! 1) = Some example_weather"
    by (simp add: example_forecasts_def example_fetch_one future_weather_def)
  have "map weather ?r = [weather (?r ! 0), weather (?r ! 1)]"
    using l by (intro nth_equalityI) (auto simp: less_Suc_eq numeral_2_eq_2)
  with 0 1 s show ?thesis
    by (simp only: simp_thms)
qed

end
